theory Spec2Isabelle
  imports Main
begin

section \<open>JavaScript values and the coercions the module relies on\<close>

text \<open>
  The module (\<^verbatim>\<open>scripts/main.mjs\<close>) reads loosely typed data: a persisted setting and
  the fields of a submitted form. The values that reach \<^verbatim>\<open>parseInt\<close> and the
  \<^verbatim>\<open>===\<close> tests are modelled by \<open>jsval\<close>. A JavaScript number is modelled by an
  integer (the setting stores tiers, character levels and slot counts), so fractions,
  infinities and numbers outside the exactly representable range are outside the model;
  \<^verbatim>\<open>NaN\<close> only ever arises as the result of \<^verbatim>\<open>parseInt\<close> and is \<open>None\<close> there.
  Strings are ASCII.
\<close>

datatype jsval = JUndefined | JNull | JBool bool | JNum int | JStr string

text \<open>\<^verbatim>\<open>String(n)\<close> and \<^verbatim>\<open>`${n}`\<close> for an integer \<open>n\<close>: decimal digits, with a sign.\<close>

fun digits :: "nat \<Rightarrow> string" where
  "digits n = (if n < 10 then [''0123456789'' ! n]
               else digits (n div 10) @ [''0123456789'' ! (n mod 10)])"

declare digits.simps [simp del]

definition js_String :: "int \<Rightarrow> string" where
  "js_String n = (if n < 0 then CHR ''-'' # digits (nat (- n)) else digits (nat n))"

text \<open>
  The remainder operator \<^verbatim>\<open>%\<close> truncates towards zero: the sign of the result is the
  sign of the dividend. (The divisors in this module are the constants 100 and 10.)
\<close>

definition js_rem :: "int \<Rightarrow> int \<Rightarrow> int" where
  "js_rem a b = sgn a * (\<bar>a\<bar> mod \<bar>b\<bar>)"

subsection \<open>\<^verbatim>\<open>parseInt\<close>\<close>

text \<open>
  \<^verbatim>\<open>parseInt(x)\<close> converts its argument to a string, skips leading white space, reads
  an optional sign, an optional \<^verbatim>\<open>0x\<close> prefix (radix 16), and then the longest prefix
  of digits; with no digit the result is \<^verbatim>\<open>NaN\<close> (\<open>None\<close>).
\<close>

definition is_space :: "char \<Rightarrow> bool" where
  "is_space c = (c \<in> set [CHR '' '', CHR 0x09, CHR 0x0A, CHR 0x0B, CHR 0x0C, CHR 0x0D])"

definition digit_val :: "char \<Rightarrow> nat option" where
  "digit_val c =
     (let k = (of_char c :: nat) in
      if 48 \<le> k \<and> k \<le> 57 then Some (k - 48)
      else if 97 \<le> k \<and> k \<le> 122 then Some (k - 87)
      else if 65 \<le> k \<and> k \<le> 90 then Some (k - 55)
      else None)"

definition is_digit :: "nat \<Rightarrow> char \<Rightarrow> bool" where
  "is_digit radix c = (case digit_val c of None \<Rightarrow> False | Some d \<Rightarrow> d < radix)"

definition digits_value :: "nat \<Rightarrow> string \<Rightarrow> nat" where
  "digits_value radix ds = foldl (\<lambda>acc c. acc * radix + the (digit_val c)) 0 ds"

definition parse_magnitude :: "string \<Rightarrow> nat option" where
  "parse_magnitude s =
     (let (radix, body) =
            (if take 2 s = ''0x'' \<or> take 2 s = ''0X'' then (16, drop 2 s) else (10, s));
          ds = takeWhile (is_digit radix) body
      in if ds = [] then None else Some (digits_value radix ds))"

definition parse_string :: "string \<Rightarrow> int option" where
  "parse_string s =
     (case dropWhile is_space s of
        [] \<Rightarrow> None
      | c # cs \<Rightarrow>
          if c = CHR ''-'' then map_option (\<lambda>m. - int m) (parse_magnitude cs)
          else if c = CHR ''+'' then map_option int (parse_magnitude cs)
          else map_option int (parse_magnitude (c # cs)))"

fun parseInt :: "jsval \<Rightarrow> int option" where
  "parseInt (JNum n) = Some n"
| "parseInt (JStr s) = parse_string s"
| "parseInt (JBool b) = None"
| "parseInt JNull = None"
| "parseInt JUndefined = None"

text \<open>
  \<^verbatim>\<open>parseInt(x) || d\<close>: the default \<open>d\<close> replaces every falsy result, that is
  \<^verbatim>\<open>NaN\<close> and \<open>0\<close>.
\<close>

definition or_default :: "int option \<Rightarrow> int \<Rightarrow> int" where
  "or_default r d = (case r of None \<Rightarrow> d | Some n \<Rightarrow> if n = 0 then d else n)"

section \<open>Ordinal labels\<close>

text \<open>
  \<^verbatim>\<open>
  function getOrdinalSuffix(n) {
    const s = ["th", "st", "nd", "rd"];
    const v = n % 100;
    return n + (s[(v - 20) % 10] || s[v] || s[0]);
  }
  \<close>
  Indexing the array outside \<open>0..3\<close> gives \<^verbatim>\<open>undefined\<close>, which \<^verbatim>\<open>||\<close> skips; the four
  strings are all truthy.
\<close>

definition suffixes :: "string list" where
  "suffixes = [''th'', ''st'', ''nd'', ''rd'']"

definition suffix_at :: "int \<Rightarrow> string option" where
  "suffix_at i = (if 0 \<le> i \<and> i < 4 then Some (suffixes ! nat i) else None)"

definition ordinal_tail :: "int \<Rightarrow> string" where
  "ordinal_tail n =
     (let v = js_rem n 100 in
      case suffix_at (js_rem (v - 20) 10) of
        Some x \<Rightarrow> x
      | None \<Rightarrow> (case suffix_at v of Some x \<Rightarrow> x | None \<Rightarrow> suffixes ! 0))"

definition getOrdinalSuffix :: "int \<Rightarrow> string" where
  "getOrdinalSuffix n = js_String n @ ordinal_tail n"

text \<open>The label installed for a tier: \<^verbatim>\<open>`${getOrdinalSuffix(level)} Level`\<close>.\<close>

definition level_label :: "int \<Rightarrow> string" where
  "level_label n = getOrdinalSuffix n @ '' Level''"

text \<open>
  The suffix rule in the words of the specification: \<open>st\<close>, \<open>nd\<close>, \<open>rd\<close> for a last digit
  1, 2, 3, \<open>th\<close> otherwise, except that \<open>n mod 100\<close> in \<open>11..13\<close> takes \<open>th\<close>.
\<close>

definition spec_suffix :: "int \<Rightarrow> string" where
  "spec_suffix n =
     (if 11 \<le> n mod 100 \<and> n mod 100 \<le> 13 then ''th''
      else if n mod 10 = 1 then ''st''
      else if n mod 10 = 2 then ''nd''
      else if n mod 10 = 3 then ''rd''
      else ''th'')"

section \<open>Configuration\<close>

text \<open>
  One entry of \<^verbatim>\<open>config.levels\<close>. The fields hold whatever the persisted setting holds,
  so they are \<open>jsval\<close>s (\<open>JUndefined\<close> for a missing field). A tier whose entry is
  missing or falsy is \<open>None\<close> in the map; an object key is the same whether it is
  written as a number or as its decimal string, so the fallback
  \<^verbatim>\<open>config.levels?.[String(spellLevel)]\<close> reads the same entry.
\<close>

record level_rule =
  enabled :: jsval
  characterLevel :: jsval
  slots :: jsval

record config =
  maxSpellLevel :: int
  levels :: "int \<rightharpoonup> level_rule"

definition DEFAULT_CONFIG :: config where
  "DEFAULT_CONFIG =
     \<lparr>maxSpellLevel = 12,
      levels = [10 \<mapsto> \<lparr>enabled = JBool True, characterLevel = JNum 19, slots = JNum 1\<rparr>,
                11 \<mapsto> \<lparr>enabled = JBool True, characterLevel = JNum 20, slots = JNum 1\<rparr>,
                12 \<mapsto> \<lparr>enabled = JBool True, characterLevel = JNum 20, slots = JNum 1\<rparr>]\<rparr>"

text \<open>
  What \<^verbatim>\<open>game.settings.get(MODULE_ID, "config")\<close> does: it throws, or it returns an
  object in which either key may be missing. (On a fresh install the host returns the
  registered default, which is \<open>DEFAULT_CONFIG\<close>.)
\<close>

record stored_config =
  stored_maxSpellLevel :: "int option"
  stored_levels :: "(int \<rightharpoonup> level_rule) option"

datatype setting_read = ReadThrows | ReadValue stored_config

definition stored_of :: "config \<Rightarrow> stored_config" where
  "stored_of c = \<lparr>stored_maxSpellLevel = Some (maxSpellLevel c), stored_levels = Some (levels c)\<rparr>"

text \<open>
  \<^verbatim>\<open>
  function getConfig() {
    try {
      const config = game.settings.get(MODULE_ID, "config");
      return { ...DEFAULT_CONFIG, ...config };
    } catch (e) {
      return DEFAULT_CONFIG;
    }
  }
  \<close>
  The spread is shallow: a stored \<^verbatim>\<open>levels\<close> replaces the default one as a whole.
\<close>

definition getConfig :: "setting_read \<Rightarrow> config" where
  "getConfig r =
     (case r of
        ReadThrows \<Rightarrow> DEFAULT_CONFIG
      | ReadValue c \<Rightarrow>
          \<lparr>maxSpellLevel =
             (case stored_maxSpellLevel c of None \<Rightarrow> maxSpellLevel DEFAULT_CONFIG | Some m \<Rightarrow> m),
           levels =
             (case stored_levels c of None \<Rightarrow> levels DEFAULT_CONFIG | Some l \<Rightarrow> l)\<rparr>)"

section \<open>Host state\<close>

text \<open>
  The localisation table \<^verbatim>\<open>game.i18n.translations\<close>: missing altogether, present
  without the namespace \<^verbatim>\<open>DND5E.SPELLCASTING.SLOTS\<close>, or present with it.
\<close>

datatype i18n_state = NoTranslations | NoSlots | Slots "string \<rightharpoonup> string"

text \<open>
  The part of the host the module reads and writes, together with the module's own
  variable \<^verbatim>\<open>originalSpellSlotTable\<close>. \<open>None\<close> is \<^verbatim>\<open>undefined\<close>/\<^verbatim>\<open>null\<close>. The slot table
  is an array of rows, each an array of numbers. \<open>spell_table\<close> is the copy of the
  table held by \<^verbatim>\<open>CONFIG.DND5E.spellcasting.spell\<close>, written through
  \<^verbatim>\<open>updateSource\<close>; it is \<open>None\<close> when that handle is missing. The objects
  \<^verbatim>\<open>CONFIG.DND5E\<close> and \<^verbatim>\<open>game\<close> themselves are taken to exist, and what the module
  writes to the console is left out.
\<close>

record host =
  setting :: setting_read
  SPELL_SLOT_TABLE :: "int list list option"
  spellLevels :: "(int \<rightharpoonup> string) option"
  i18n :: i18n_state
  spell_table :: "int list list option"
  originalSpellSlotTable :: "int list list option"

datatype js_error = TypeError

datatype completion = Normal | Throw js_error

text \<open>A \<^verbatim>\<open>for\<close> loop over consecutive integers whose body may throw.\<close>

fun for_each :: "int list \<Rightarrow> (int \<Rightarrow> host \<Rightarrow> completion \<times> host) \<Rightarrow> host \<Rightarrow> completion \<times> host" where
  "for_each [] body h = (Normal, h)"
| "for_each (x # xs) body h =
     (case body x h of
        (Normal, h') \<Rightarrow> for_each xs body h'
      | (Throw e, h') \<Rightarrow> (Throw e, h'))"

section \<open>Labels: \<^verbatim>\<open>updateSpellLevelsConfig\<close>\<close>

definition slot_key :: "int \<Rightarrow> string" where
  "slot_key level = ''spell'' @ js_String level"

text \<open>
  \<^verbatim>\<open>
  if (game.i18n?.translations) {
    game.i18n.translations.DND5E ??= {};
    game.i18n.translations.DND5E.SPELLCASTING ??= {};
    game.i18n.translations.DND5E.SPELLCASTING.SLOTS ??= {};
  }
  \<close>
\<close>

definition ensure_namespace :: "host \<Rightarrow> host" where
  "ensure_namespace h =
     h\<lparr>i18n := (case i18n h of
                  NoTranslations \<Rightarrow> NoTranslations
                | NoSlots \<Rightarrow> Slots Map.empty
                | Slots m \<Rightarrow> Slots m)\<rparr>"

text \<open>
  The body of the purge loop. \<^verbatim>\<open>delete CONFIG.DND5E.spellLevels[level]\<close> throws a
  \<^verbatim>\<open>TypeError\<close> when \<^verbatim>\<open>spellLevels\<close> is missing.
\<close>

definition purge_label :: "int \<Rightarrow> host \<Rightarrow> completion \<times> host" where
  "purge_label level h =
     (case spellLevels h of
        None \<Rightarrow> (Throw TypeError, h)
      | Some ls \<Rightarrow>
          (Normal,
           h\<lparr>spellLevels := Some (ls(level := None)),
             i18n := (case i18n h of
                        Slots m \<Rightarrow> Slots (m(slot_key level := None))
                      | other \<Rightarrow> other)\<rparr>))"

definition install_label :: "int \<Rightarrow> host \<Rightarrow> completion \<times> host" where
  "install_label level h =
     (let label = level_label level in
      case spellLevels h of
        None \<Rightarrow> (Throw TypeError, h)
      | Some ls \<Rightarrow>
          (Normal,
           h\<lparr>spellLevels := Some (ls(level \<mapsto> label)),
             i18n := (case i18n h of
                        Slots m \<Rightarrow> Slots (m(slot_key level \<mapsto> label))
                      | other \<Rightarrow> other)\<rparr>))"

definition updateSpellLevelsConfig :: "int \<Rightarrow> host \<Rightarrow> completion \<times> host" where
  "updateSpellLevelsConfig maxLevel h =
     (case for_each [10..99] purge_label (ensure_namespace h) of
        (Throw e, h') \<Rightarrow> (Throw e, h')
      | (Normal, h') \<Rightarrow> for_each [10..maxLevel] install_label h')"

section \<open>The slot table: \<^verbatim>\<open>applyExpandedSpellSlots\<close>\<close>

text \<open>
  \<^verbatim>\<open>levelConfig?.enabled === true || levelConfig?.enabled === "true"\<close>
\<close>

definition isEnabled :: "level_rule option \<Rightarrow> bool" where
  "isEnabled levelConfig =
     (case levelConfig of
        None \<Rightarrow> False
      | Some r \<Rightarrow> enabled r = JBool True \<or> enabled r = JStr ''true'')"

definition requiredCharLevel :: "level_rule \<Rightarrow> int" where
  "requiredCharLevel levelConfig = or_default (parseInt (characterLevel levelConfig)) 20"

definition slotsToGrant :: "level_rule \<Rightarrow> int" where
  "slotsToGrant levelConfig = or_default (parseInt (slots levelConfig)) 1"

text \<open>
  \<^verbatim>\<open>while (row.length < colIndex + 1) row.push(0);\<close>
\<close>

function extend_row :: "int list \<Rightarrow> nat \<Rightarrow> int list" where
  "extend_row row n = (if length row < n then extend_row (row @ [0]) n else row)"
  by pat_completeness auto
termination
  by (relation "measure (\<lambda>(row, n). n - length row)") auto

declare extend_row.simps [simp del]

text \<open>
  The body of the inner loop. \<^verbatim>\<open>CONFIG.DND5E.SPELL_SLOT_TABLE[rowIndex]\<close> is
  \<^verbatim>\<open>undefined\<close> for an index outside the array (below zero too), and a row, being an
  array, is truthy.
\<close>

definition grant_cell :: "int \<Rightarrow> nat \<Rightarrow> int \<Rightarrow> int list list \<Rightarrow> int list list" where
  "grant_cell rowIndex colIndex n t =
     (if 0 \<le> rowIndex \<and> nat rowIndex < length t
      then t[nat rowIndex := (extend_row (t ! nat rowIndex) (colIndex + 1))[colIndex := n]]
      else t)"

definition patch_tier :: "config \<Rightarrow> int \<Rightarrow> int list list \<Rightarrow> int list list" where
  "patch_tier cfg spellLevel t =
     (case levels cfg spellLevel of
        None \<Rightarrow> t
      | Some levelConfig \<Rightarrow>
          if \<not> isEnabled (Some levelConfig) then t
          else fold (\<lambda>charLevel. grant_cell (charLevel - 1) (nat (spellLevel - 1))
                                    (slotsToGrant levelConfig))
                 [requiredCharLevel levelConfig..20] t)"

definition patch_table :: "config \<Rightarrow> int list list \<Rightarrow> int list list" where
  "patch_table cfg t = fold (patch_tier cfg) [10..maxSpellLevel cfg] t"

text \<open>
  The whole function. \<^verbatim>\<open>table.map(row => [...row])\<close> copies every row, so the snapshot
  and the live table never share a row; on values the copy is the identity. With no
  snapshot yet and no table, \<^verbatim>\<open>CONFIG.DND5E.SPELL_SLOT_TABLE.map\<close> throws a
  \<^verbatim>\<open>TypeError\<close> before anything is written.
\<close>

definition applyExpandedSpellSlots :: "host \<Rightarrow> completion \<times> host" where
  "applyExpandedSpellSlots h =
     (let config = getConfig (setting h);
          maxLevel = maxSpellLevel config;
          snapshot = (case originalSpellSlotTable h of
                        Some original \<Rightarrow> Some original
                      | None \<Rightarrow> SPELL_SLOT_TABLE h)
      in case snapshot of
           None \<Rightarrow> (Throw TypeError, h)
         | Some original \<Rightarrow>
             (case updateSpellLevelsConfig maxLevel
                     (h\<lparr>originalSpellSlotTable := Some original,
                        SPELL_SLOT_TABLE := Some original\<rparr>) of
                (Throw e, h') \<Rightarrow> (Throw e, h')
              | (Normal, h') \<Rightarrow>
                  (let patched = map_option (patch_table config) (SPELL_SLOT_TABLE h')
                   in (Normal,
                       h'\<lparr>SPELL_SLOT_TABLE := patched,
                          spell_table := (case spell_table h' of
                                            None \<Rightarrow> None
                                          | Some cached \<Rightarrow> patched)\<rparr>))))"

section \<open>The settings form\<close>

record display_level =
  d_level :: int
  d_label :: string
  d_enabled :: bool
  d_characterLevel :: int
  d_slots :: int

text \<open>The rows \<^verbatim>\<open>getData\<close> hands to the template.\<close>

definition getData_levels :: "config \<Rightarrow> display_level list" where
  "getData_levels cfg =
     map (\<lambda>level.
            let levelConfig =
                  (case levels cfg level of
                     Some r \<Rightarrow> r
                   | None \<Rightarrow> \<lparr>enabled = JBool False, characterLevel = JNum 20, slots = JNum 1\<rparr>)
            in \<lparr>d_level = level,
                d_label = level_label level,
                d_enabled = (enabled levelConfig = JBool True \<or> enabled levelConfig = JStr ''true''),
                d_characterLevel = or_default (parseInt (characterLevel levelConfig)) 20,
                d_slots = or_default (parseInt (slots levelConfig)) 1\<rparr>)
         [10..max (maxSpellLevel cfg) 10]"

text \<open>
  \<^verbatim>\<open>_addLevel\<close>, \<^verbatim>\<open>_removeLevel\<close> and \<^verbatim>\<open>_updateObject\<close> as functions from the configuration
  \<^verbatim>\<open>getConfig()\<close> returned to the configuration handed to \<^verbatim>\<open>game.settings.set\<close>;
  \<open>None\<close> is the early return of \<^verbatim>\<open>_removeLevel\<close>, which writes nothing.
\<close>

definition addLevel :: "config \<Rightarrow> config" where
  "addLevel cfg =
     (let newLevel = maxSpellLevel cfg + 1
      in cfg\<lparr>maxSpellLevel := newLevel,
             levels := (levels cfg)(newLevel \<mapsto>
                          \<lparr>enabled = JBool True, characterLevel = JNum 20, slots = JNum 1\<rparr>)\<rparr>)"

definition removeLevel :: "int \<Rightarrow> config \<Rightarrow> config option" where
  "removeLevel level cfg =
     (if level \<le> 10 then None
      else let cfg' = cfg\<lparr>levels := (levels cfg)(level := None)\<rparr>
           in Some (if level = maxSpellLevel cfg' then cfg'\<lparr>maxSpellLevel := level - 1\<rparr> else cfg'))"

definition form_key :: "int \<Rightarrow> string \<Rightarrow> string" where
  "form_key level field = ''levels.'' @ js_String level @ ''.'' @ field"

text \<open>
  \<^verbatim>\<open>enabledValue === true || enabledValue === "on" || enabledValue === "true"\<close>
\<close>

definition form_enabled :: "jsval \<Rightarrow> bool" where
  "form_enabled enabledValue =
     (enabledValue = JBool True \<or> enabledValue = JStr ''on'' \<or> enabledValue = JStr ''true'')"

definition form_rule :: "(string \<Rightarrow> jsval) \<Rightarrow> int \<Rightarrow> level_rule" where
  "form_rule formData level =
     \<lparr>enabled = JBool (form_enabled (formData (form_key level ''enabled''))),
      characterLevel = JNum (or_default (parseInt (formData (form_key level ''characterLevel''))) 20),
      slots = JNum (or_default (parseInt (formData (form_key level ''slots''))) 1)\<rparr>"

definition updateObject :: "(string \<Rightarrow> jsval) \<Rightarrow> config \<Rightarrow> config" where
  "updateObject formData currentConfig =
     \<lparr>maxSpellLevel = maxSpellLevel currentConfig,
      levels = fold (\<lambda>level ls. ls(level \<mapsto> form_rule formData level))
                 [10..maxSpellLevel currentConfig] Map.empty\<rparr>"

section \<open>Notions used in the statements\<close>

text \<open>
  The cell \<open>(i, j)\<close> of a table read through the zero filling of the inner loop: the
  stored number where the row has a column \<open>j\<close>, and the \<open>0\<close> that
  \<^verbatim>\<open>push(0)\<close> would store there otherwise.
\<close>

definition padded_cell :: "int list list \<Rightarrow> nat \<Rightarrow> nat \<Rightarrow> int" where
  "padded_cell t i j = (if j < length (t ! i) then t ! i ! j else 0)"

text \<open>
  The rule, if any, under which the loops of \<open>applyExpandedSpellSlots\<close> write the cell
  \<open>(i, j)\<close>: column \<open>j\<close> belongs to the tier \<open>j + 1\<close>, which must lie in
  \<open>10..maxSpellLevel\<close> and be enabled, and row \<open>i\<close> belongs to the character level
  \<open>i + 1\<close>, which must lie between the required level of the rule and 20.
\<close>

definition granting_rule :: "config \<Rightarrow> nat \<Rightarrow> nat \<Rightarrow> level_rule option" where
  "granting_rule cfg i j =
     (case levels cfg (int j + 1) of
        None \<Rightarrow> None
      | Some r \<Rightarrow>
          if 10 \<le> int j + 1 \<and> int j + 1 \<le> maxSpellLevel cfg \<and> isEnabled (Some r) \<and>
             requiredCharLevel r \<le> int i + 1 \<and> int i + 1 \<le> 20
          then Some r else None)"

section \<open>A concrete host\<close>

text \<open>
  The full-caster progression of the fifth edition rules, as the game system ships it in
  \<^verbatim>\<open>CONFIG.DND5E.SPELL_SLOT_TABLE\<close>: twenty rows, row \<open>i\<close> for character level
  \<open>i + 1\<close>, at most nine columns. It serves as the concrete input of the examples.
\<close>

definition example_table :: "int list list" where
  "example_table =
     [[2], [3], [4, 2], [4, 3], [4, 3, 2], [4, 3, 3], [4, 3, 3, 1], [4, 3, 3, 2],
      [4, 3, 3, 3, 1], [4, 3, 3, 3, 2], [4, 3, 3, 3, 2, 1], [4, 3, 3, 3, 2, 1],
      [4, 3, 3, 3, 2, 1, 1], [4, 3, 3, 3, 2, 1, 1], [4, 3, 3, 3, 2, 1, 1, 1],
      [4, 3, 3, 3, 2, 1, 1, 1], [4, 3, 3, 3, 2, 1, 1, 1, 1], [4, 3, 3, 3, 3, 1, 1, 1, 1],
      [4, 3, 3, 3, 3, 2, 1, 1, 1], [4, 3, 3, 3, 3, 2, 2, 1, 1]]"

definition example_spellLevels :: "int \<rightharpoonup> string" where
  "example_spellLevels = [0 \<mapsto> ''Cantrip'', 1 \<mapsto> ''1st Level'', 9 \<mapsto> ''9th Level'']"

text \<open>A freshly started host: nothing persisted, no snapshot taken yet.\<close>

definition fresh_host :: host where
  "fresh_host =
     \<lparr>setting = ReadValue (stored_of DEFAULT_CONFIG),
      SPELL_SLOT_TABLE = Some example_table,
      spellLevels = Some example_spellLevels,
      i18n = Slots Map.empty,
      spell_table = Some example_table,
      originalSpellSlotTable = None\<rparr>"

text \<open>A host on which an earlier configuration left labels for the tiers 50 and 100.\<close>

definition stale_labels :: "int \<rightharpoonup> string" where
  "stale_labels = example_spellLevels(50 \<mapsto> ''50th Level'', 100 \<mapsto> ''100th Level'')"

definition stale_host :: host where
  "stale_host = fresh_host\<lparr>spellLevels := Some stale_labels\<rparr>"

text \<open>A host whose table stops at character level 19: the row of level 20 is missing.\<close>

definition short_host :: host where
  "short_host = fresh_host\<lparr>SPELL_SLOT_TABLE := Some (take 19 example_table), spell_table := None\<rparr>"

text \<open>A host that has not defined its slot table yet.\<close>

definition no_table_host :: host where
  "no_table_host = fresh_host\<lparr>SPELL_SLOT_TABLE := None\<rparr>"

text \<open>
  A host that lost its live table after a snapshot was taken, and whose spellcasting
  model offers no \<^verbatim>\<open>updateSource\<close>.
\<close>

definition reset_host :: host where
  "reset_host =
     fresh_host\<lparr>SPELL_SLOT_TABLE := None, spell_table := None,
                 originalSpellSlotTable := Some example_table\<rparr>"

section \<open>Properties of the coercions and of the labels\<close>

text \<open>
  The loops run over integer ranges such as \<open>[10..99]\<close>; the simplifier is kept from
  unrolling them unasked.
\<close>

declare upto_rec_numeral [simp del]

lemma js_rem_nonneg: "0 \<le> a \<Longrightarrow> 0 < b \<Longrightarrow> js_rem a b = a mod b"
  by (cases "a = 0") (simp_all add: js_rem_def)

lemma js_rem_neg: "a < 0 \<Longrightarrow> 0 < b \<Longrightarrow> js_rem a b = - ((- a) mod b)"
  by (simp add: js_rem_def)

lemma digit_val_digit: "d < 10 \<Longrightarrow> digit_val (''0123456789'' ! d) = Some d"
proof -
  assume "d < 10"
  then have "d \<in> {0,1,2,3,4,5,6,7,8,9}" by auto
  then show ?thesis by (auto simp: digit_val_def)
qed

lemma digits_value_snoc:
  "digits_value r (ds @ [c]) = digits_value r ds * r + the (digit_val c)"
  by (simp add: digits_value_def)

lemma digits_value_digits: "digits_value 10 (digits n) = n"
proof (induction n rule: digits.induct)
  case (1 n)
  show ?case
  proof (cases "n < 10")
    case True
    then show ?thesis
      by (subst digits.simps) (simp add: digits_value_def digit_val_digit)
  next
    case False
    then have "digits_value 10 (digits (n div 10)) = n div 10" using 1 by simp
    then show ?thesis
      using False by (subst digits.simps) (simp add: digits_value_snoc digit_val_digit)
  qed
qed

lemma digits_inj: "digits a = digits b \<Longrightarrow> a = b"
  by (metis digits_value_digits)

lemma digit_char_not_minus: "d < 10 \<Longrightarrow> ''0123456789'' ! d \<noteq> CHR ''-''"
proof -
  assume "d < 10"
  then have "d \<in> {0,1,2,3,4,5,6,7,8,9}" by auto
  then show ?thesis by auto
qed

lemma hd_digits: "digits n \<noteq> [] \<and> hd (digits n) \<noteq> CHR ''-''"
proof (induction n rule: digits.induct)
  case (1 n)
  show ?case
  proof (cases "n < 10")
    case True
    then show ?thesis by (subst (1 2) digits.simps) (simp add: digit_char_not_minus)
  next
    case False
    then show ?thesis using 1 by (subst (1 2) digits.simps) simp
  qed
qed

lemma js_String_inj: "js_String a = js_String b \<Longrightarrow> a = b"
proof -
  assume eq: "js_String a = js_String b"
  have ne: "\<And>n m. CHR ''-'' # digits n \<noteq> digits m"
    using hd_digits by (metis list.sel(1))
  note ne' = ne[THEN not_sym]
  show ?thesis
  proof (cases "a < 0")
    case True
    then have "b < 0" using eq ne ne' by (auto simp: js_String_def split: if_splits)
    with True eq have "nat (- a) = nat (- b)" by (auto simp: js_String_def dest: digits_inj)
    with True \<open>b < 0\<close> show ?thesis by simp
  next
    case False
    then have "\<not> b < 0" using eq ne ne' by (auto simp: js_String_def split: if_splits)
    with False eq have "nat a = nat b" by (auto simp: js_String_def dest: digits_inj)
    with False \<open>\<not> b < 0\<close> show ?thesis by simp
  qed
qed

lemma slot_key_inj: "slot_key a = slot_key b \<longleftrightarrow> a = b"
  by (auto simp: slot_key_def dest: js_String_inj)

lemma suffix_at_simps:
  "suffix_at 0 = Some ''th''" "suffix_at 1 = Some ''st''"
  "suffix_at 2 = Some ''nd''" "suffix_at 3 = Some ''rd''"
  "i < 0 \<Longrightarrow> suffix_at i = None" "4 \<le> i \<Longrightarrow> suffix_at i = None"
  by (simp_all add: suffix_at_def suffixes_def)

lemma ordinal_tail_spec:
  assumes "0 \<le> n"
  shows "ordinal_tail n = spec_suffix n"
proof -
  define v where "v = n mod 100"
  have v: "0 \<le> v" "v < 100"
    unfolding v_def by simp_all
  have m10: "n mod 10 = v mod 10"
    unfolding v_def by (simp add: mod_mod_cancel)
  have r: "js_rem n 100 = v"
    using assms by (simp add: js_rem_nonneg v_def)
  show ?thesis
  proof (cases "v < 20")
    case True
    define w where "w = (20 - v) mod 10"
    have jw: "js_rem (v - 20) 10 = - w"
      using True by (simp add: js_rem_neg w_def)
    have w: "0 \<le> w" "w = 0 \<longleftrightarrow> v = 0 \<or> v = 10"
      unfolding w_def using v True by presburger+
    show ?thesis
    proof (cases "w = 0")
      case True
      with w have "v = 0 \<or> v = 10" by simp
      then show ?thesis
        using True
        by (auto simp: ordinal_tail_def r jw suffix_at_simps spec_suffix_def
            v_def[symmetric] m10)
    next
      case False
      then have neg: "- w < 0" using w by simp
      have v0: "v \<noteq> 0" "v \<noteq> 10" using False w by auto
      show ?thesis
      proof (cases "v < 4")
        case True
        then have "v = 1 \<or> v = 2 \<or> v = 3" using v v0 by arith
        then show ?thesis
          by (auto simp: ordinal_tail_def r jw suffix_at_simps(5)[OF neg] suffix_at_simps
              spec_suffix_def v_def[symmetric] m10)
      next
        case False
        then have a: "suffix_at v = None" by (simp add: suffix_at_simps)
        have b: "11 \<le> v \<and> v \<le> 13 \<or> (v mod 10 \<noteq> 1 \<and> v mod 10 \<noteq> 2 \<and> v mod 10 \<noteq> 3)"
          using False \<open>v < 20\<close> v by presburger
        then show ?thesis
          by (auto simp: ordinal_tail_def r jw suffix_at_simps(5)[OF neg] a suffixes_def
              spec_suffix_def v_def[symmetric] m10)
      qed
    qed
  next
    case False
    define d where "d = v mod 10"
    have "(v - 20) mod 10 = v mod 10" by presburger
    then have jd: "js_rem (v - 20) 10 = d"
      using False by (simp add: js_rem_nonneg d_def)
    have d: "0 \<le> d" "d < 10" unfolding d_def by simp_all
    have nv: "\<not> (11 \<le> v \<and> v \<le> 13)" "suffix_at v = None"
      using False by (simp_all add: suffix_at_simps)
    show ?thesis
    proof (cases "d < 4")
      case True
      then have "d = 0 \<or> d = 1 \<or> d = 2 \<or> d = 3" using d by arith
      then show ?thesis
        using nv
        by (auto simp: ordinal_tail_def r jd suffix_at_simps spec_suffix_def
            v_def[symmetric] m10 d_def[symmetric])
    next
      case False
      then have "suffix_at d = None" by (simp add: suffix_at_simps)
      then show ?thesis
        using nv False
        by (auto simp: ordinal_tail_def r jd suffixes_def spec_suffix_def
            v_def[symmetric] m10 d_def[symmetric])
    qed
  qed
qed

lemma level_label_spec:
  "0 \<le> n \<Longrightarrow> level_label n = js_String n @ spec_suffix n @ '' Level''"
  by (simp add: level_label_def getOrdinalSuffix_def ordinal_tail_spec)

lemma level_label_examples:
  "level_label 10 = ''10th Level''" "level_label 11 = ''11th Level''"
  "level_label 12 = ''12th Level''" "level_label 13 = ''13th Level''"
  "level_label 21 = ''21st Level''" "level_label 22 = ''22nd Level''"
  "level_label 23 = ''23rd Level''" "level_label 111 = ''111th Level''"
  by code_simp+

lemma fold_delete_lookup:
  "fold (\<lambda>k m. m(key k := None)) xs m s = (if s \<in> key ` set xs then None else m s)"
  by (induction xs arbitrary: m) auto

lemma fold_install_other:
  "s \<notin> key ` set xs \<Longrightarrow> fold (\<lambda>k m. m(key k \<mapsto> val k)) xs m s = m s"
  by (induction xs arbitrary: m) auto

lemma fold_install_lookup:
  "inj key \<Longrightarrow> j \<in> set xs \<Longrightarrow> fold (\<lambda>k m. m(key k \<mapsto> val k)) xs m (key j) = Some (val j)"
proof (induction xs arbitrary: m)
  case Nil
  then show ?case by simp
next
  case (Cons x xs)
  show ?case
  proof (cases "j \<in> set xs")
    case True
    then show ?thesis using Cons by simp
  next
    case False
    then have jx: "j = x" using Cons.prems by simp
    have nk: "key x \<notin> key ` set xs"
      using False Cons.prems(1) jx by (auto dest: injD)
    have "fold (\<lambda>k m. m(key k \<mapsto> val k)) xs (m(key x \<mapsto> val x)) (key x)
            = (m(key x \<mapsto> val x)) (key x)"
      by (rule fold_install_other[OF nk])
    then show ?thesis
      unfolding jx by (simp only: fold_simps comp_apply fun_upd_same)
  qed
qed

lemma for_each_purge:
  "spellLevels h = Some ls \<Longrightarrow>
   for_each xs purge_label h =
     (Normal,
      h\<lparr>spellLevels := Some (fold (\<lambda>k m. m(k := None)) xs ls),
        i18n := (case i18n h of
                   Slots m \<Rightarrow> Slots (fold (\<lambda>k m. m(slot_key k := None)) xs m)
                 | other \<Rightarrow> other)\<rparr>)"
proof (induction xs arbitrary: h ls)
  case Nil
  then show ?case by (simp split: i18n_state.splits)
next
  case (Cons x xs)
  then show ?case by (simp add: purge_label_def split: i18n_state.splits)
qed

lemma for_each_install:
  "spellLevels h = Some ls \<Longrightarrow>
   for_each xs install_label h =
     (Normal,
      h\<lparr>spellLevels := Some (fold (\<lambda>k m. m(k \<mapsto> level_label k)) xs ls),
        i18n := (case i18n h of
                   Slots m \<Rightarrow> Slots (fold (\<lambda>k m. m(slot_key k \<mapsto> level_label k)) xs m)
                 | other \<Rightarrow> other)\<rparr>)"
proof (induction xs arbitrary: h ls)
  case Nil
  then show ?case by (simp split: i18n_state.splits)
next
  case (Cons x xs)
  then show ?case by (simp add: install_label_def Let_def split: i18n_state.splits)
qed

lemma for_each_purge_throw:
  "spellLevels h = None \<Longrightarrow> for_each (x # xs) purge_label h = (Throw TypeError, h)"
  by (simp add: purge_label_def)

lemma upto_10_99: "[10..99] = 10 # [11..99]"
  by (simp add: upto_rec1)

lemma updateSpellLevelsConfig_throw:
  assumes "spellLevels h = None"
  shows "updateSpellLevelsConfig maxLevel h = (Throw TypeError, ensure_namespace h)"
proof -
  have e: "spellLevels (ensure_namespace h) = None"
    using assms by (simp add: ensure_namespace_def)
  have "for_each [10..99] purge_label (ensure_namespace h) = (Throw TypeError, ensure_namespace h)"
    by (subst upto_10_99) (rule for_each_purge_throw[OF e])
  then show ?thesis
    by (simp only: updateSpellLevelsConfig_def prod.case completion.case)
qed

lemma updateSpellLevelsConfig_normal:
  "spellLevels h = Some ls \<Longrightarrow>
   updateSpellLevelsConfig maxLevel h =
     (Normal,
      h\<lparr>spellLevels :=
          Some (fold (\<lambda>k m. m(k \<mapsto> level_label k)) [10..maxLevel]
                  (fold (\<lambda>k m. m(k := None)) [10..99] ls)),
        i18n :=
          (case i18n h of
             NoTranslations \<Rightarrow> NoTranslations
           | NoSlots \<Rightarrow>
               Slots (fold (\<lambda>k m. m(slot_key k \<mapsto> level_label k)) [10..maxLevel]
                        (fold (\<lambda>k m. m(slot_key k := None)) [10..99] Map.empty))
           | Slots m \<Rightarrow>
               Slots (fold (\<lambda>k m. m(slot_key k \<mapsto> level_label k)) [10..maxLevel]
                        (fold (\<lambda>k m. m(slot_key k := None)) [10..99] m)))\<rparr>)"
proof -
  assume a: "spellLevels h = Some ls"
  then have e: "spellLevels (ensure_namespace h) = Some ls"
    by (simp add: ensure_namespace_def)
  note p = for_each_purge[OF e, of "[10..99]"]
  have s1: "spellLevels (snd (for_each [10..99] purge_label (ensure_namespace h)))
              = Some (fold (\<lambda>k m. m(k := None)) [10..99] ls)"
    by (simp only: p snd_conv) (simp)
  note q = for_each_install[OF s1, of "[10..maxLevel]"]
  have "updateSpellLevelsConfig maxLevel h
          = for_each [10..maxLevel] install_label
              (snd (for_each [10..99] purge_label (ensure_namespace h)))"
    by (simp only: updateSpellLevelsConfig_def p prod.case completion.case snd_conv)
  also note q
  finally show ?thesis
    unfolding p snd_conv
    by (cases "i18n h") (simp_all add: ensure_namespace_def)
qed

section \<open>Claims about the labels\<close>

lemma installed_lookup:
  assumes "inj key" and "10 \<le> j" and "j \<le> maxLevel"
  shows "fold (\<lambda>k m. m(key k \<mapsto> val k)) [10..maxLevel] m0 (key j) = Some (val j)"
proof -
  have "j \<in> set [10..maxLevel]" using assms(2,3) by simp
  then show ?thesis by (rule fold_install_lookup[OF assms(1)])
qed

lemma purged_lookup:
  assumes "s \<notin> key ` {10..maxLevel}"
  shows "fold (\<lambda>k m. m(key k \<mapsto> val k)) [10..maxLevel]
           (fold (\<lambda>k m. m(key k := None)) [10..99] m) s
         = (if s \<in> key ` {10..99} then None else m s)"
proof -
  have "s \<notin> key ` set [10..maxLevel]" unfolding set_upto by (rule assms)
  then have "fold (\<lambda>k m. m(key k \<mapsto> val k)) [10..maxLevel]
           (fold (\<lambda>k m. m(key k := None)) [10..99] m) s
          = fold (\<lambda>k m. m(key k := None)) [10..99] m s"
    by (rule fold_install_other)
  also have "\<dots> = (if s \<in> key ` set [10..99] then None else m s)"
    by (rule fold_delete_lookup)
  finally show ?thesis by (simp only: set_upto)
qed

text \<open>
  C3. For every tier \<open>n \<ge> 10\<close> the label is the decimal numeral of \<open>n\<close>, the ordinal
  suffix of the specification (\<open>spec_suffix\<close>) and \<open>'' Level''\<close>;
  \<open>updateSpellLevelsConfig\<close> installs exactly that label for every tier from 10 to
  \<open>maxLevel\<close>; and the eight labels the specification lists come out as listed.
\<close>

theorem ordinal_label_correct:
  "(10 \<le> n \<longrightarrow> level_label n = js_String n @ spec_suffix n @ '' Level'') \<and>
   (10 \<le> n \<and> n \<le> maxLevel \<and> spellLevels h = Some ls \<longrightarrow>
      (\<exists>ls'. spellLevels (snd (updateSpellLevelsConfig maxLevel h)) = Some ls' \<and>
             ls' n = Some (js_String n @ spec_suffix n @ '' Level''))) \<and>
   level_label 10 = ''10th Level'' \<and> level_label 11 = ''11th Level'' \<and>
   level_label 12 = ''12th Level'' \<and> level_label 13 = ''13th Level'' \<and>
   level_label 21 = ''21st Level'' \<and> level_label 22 = ''22nd Level'' \<and>
   level_label 23 = ''23rd Level'' \<and> level_label 111 = ''111th Level''"
proof -
  have a: "10 \<le> n \<longrightarrow> level_label n = js_String n @ spec_suffix n @ '' Level''"
    by (simp add: level_label_spec)
  have b: "10 \<le> n \<and> n \<le> maxLevel \<and> spellLevels h = Some ls \<longrightarrow>
      (\<exists>ls'. spellLevels (snd (updateSpellLevelsConfig maxLevel h)) = Some ls' \<and>
             ls' n = Some (js_String n @ spec_suffix n @ '' Level''))"
  proof
    assume h: "10 \<le> n \<and> n \<le> maxLevel \<and> spellLevels h = Some ls"
    have "inj (\<lambda>k::int. k)" by simp
    from installed_lookup[OF this, of n maxLevel level_label] h
    have "fold (\<lambda>k m. m(k \<mapsto> level_label k)) [10..maxLevel]
            (fold (\<lambda>k m. m(k := None)) [10..99] ls) n = Some (level_label n)"
      by simp
    moreover have "level_label n = js_String n @ spec_suffix n @ '' Level''"
      using h by (simp add: level_label_spec)
    ultimately show "\<exists>ls'. spellLevels (snd (updateSpellLevelsConfig maxLevel h)) = Some ls' \<and>
             ls' n = Some (js_String n @ spec_suffix n @ '' Level'')"
      using h by (simp add: updateSpellLevelsConfig_normal)
  qed
  show ?thesis
    using a b level_label_examples by blast
qed

theorem ordinal_label_correct_witness:
  "level_label 21 = ''21st Level'' \<and>
   (\<exists>ls'. spellLevels (snd (updateSpellLevelsConfig 22 fresh_host)) = Some ls' \<and>
          ls' 21 = Some ''21st Level'')"
proof -
  have s: "js_String 21 @ spec_suffix 21 @ '' Level'' = ''21st Level''"
    by (simp add: js_String_def digits.simps spec_suffix_def)
  have f: "spellLevels fresh_host = Some example_spellLevels"
    by (simp add: fresh_host_def)
  show ?thesis
    using ordinal_label_correct[of 21 22 fresh_host example_spellLevels] f
    by (simp only: s) simp
qed

lemma slot_key_image: "slot_key t \<in> slot_key ` {lo..hi} \<longleftrightarrow> lo \<le> t \<and> t \<le> hi"
  by (auto simp: slot_key_inj)

lemma inj_slot_key: "inj slot_key"
  by (simp add: inj_def slot_key_inj)

lemma labels_after_update:
  assumes "maxLevel \<le> 99"
  shows "fold (\<lambda>k m. m(k \<mapsto> level_label k)) [10..maxLevel]
           (fold (\<lambda>k m. m(k := None)) [10..99] ls) t
         = (if 10 \<le> t \<and> t \<le> maxLevel then Some (level_label t)
            else if 10 \<le> t \<and> t \<le> 99 then None else ls t)"
proof (cases "10 \<le> t \<and> t \<le> maxLevel")
  case True
  have "inj (\<lambda>k::int. k)" by simp
  from installed_lookup[OF this, of t maxLevel level_label] True
  show ?thesis by simp
next
  case False
  then have "t \<notin> (\<lambda>k. k) ` {10..maxLevel}" by auto
  from purged_lookup[OF this, of level_label ls] False
  show ?thesis by auto
qed

lemma slots_after_update:
  assumes "maxLevel \<le> 99"
  shows "fold (\<lambda>k m. m(slot_key k \<mapsto> level_label k)) [10..maxLevel]
           (fold (\<lambda>k m. m(slot_key k := None)) [10..99] m) (slot_key t)
         = (if 10 \<le> t \<and> t \<le> maxLevel then Some (level_label t)
            else if 10 \<le> t \<and> t \<le> 99 then None else m (slot_key t))"
proof (cases "10 \<le> t \<and> t \<le> maxLevel")
  case True
  from installed_lookup[OF inj_slot_key, of t maxLevel level_label] True
  show ?thesis by simp
next
  case False
  then have "slot_key t \<notin> slot_key ` {10..maxLevel}" by (simp add: slot_key_image)
  from purged_lookup[OF this, of level_label m] False
  show ?thesis by (simp add: slot_key_image)
qed

lemma slots_after_update_other:
  assumes "s \<notin> range slot_key"
  shows "fold (\<lambda>k m. m(slot_key k \<mapsto> level_label k)) [10..maxLevel]
           (fold (\<lambda>k m. m(slot_key k := None)) [10..99] m) s = m s"
proof -
  have a: "s \<notin> slot_key ` {10..maxLevel}" and b: "s \<notin> slot_key ` {10..99}"
    using assms by auto
  from purged_lookup[OF a, of level_label m] b show ?thesis by simp
qed

text \<open>
  C9. The purge loop of \<open>updateSpellLevelsConfig\<close> runs over the tiers 10 to 99 only.
  For \<open>maxLevel \<le> 99\<close> the entries of \<open>spellLevels\<close> for the tiers 10 to 99 are
  afterwards exactly those of the tiers 10 to \<open>maxLevel\<close>, each with its label, and
  every other entry, a stale label of a tier of 100 or more among them, is what it was
  before. The same holds of the localisation keys \<open>spell<tier>\<close>; where the namespace
  was missing it is created with the keys of the tiers 10 to \<open>maxLevel\<close> alone, and where
  there is no localisation table none is made.
\<close>

theorem purge_covers_10_to_99_only:
  assumes "maxLevel \<le> 99" and "spellLevels h = Some ls"
  shows "fst (updateSpellLevelsConfig maxLevel h) = Normal \<and>
         (\<exists>ls'. spellLevels (snd (updateSpellLevelsConfig maxLevel h)) = Some ls' \<and>
            (\<forall>t. 10 \<le> t \<and> t \<le> 99 \<longrightarrow>
                   ls' t = (if t \<le> maxLevel then Some (level_label t) else None)) \<and>
            (\<forall>t. t < 10 \<or> 99 < t \<longrightarrow> ls' t = ls t)) \<and>
         (\<forall>m. i18n h = Slots m \<longrightarrow>
            (\<exists>m'. i18n (snd (updateSpellLevelsConfig maxLevel h)) = Slots m' \<and>
               (\<forall>t. 10 \<le> t \<and> t \<le> 99 \<longrightarrow>
                      m' (slot_key t) = (if t \<le> maxLevel then Some (level_label t) else None)) \<and>
               (\<forall>t. t < 10 \<or> 99 < t \<longrightarrow> m' (slot_key t) = m (slot_key t)) \<and>
               (\<forall>s. s \<notin> range slot_key \<longrightarrow> m' s = m s))) \<and>
         (i18n h = NoSlots \<longrightarrow>
            (\<exists>m'. i18n (snd (updateSpellLevelsConfig maxLevel h)) = Slots m' \<and>
               (\<forall>t. m' (slot_key t) =
                      (if 10 \<le> t \<and> t \<le> maxLevel then Some (level_label t) else None)) \<and>
               (\<forall>s. s \<notin> range slot_key \<longrightarrow> m' s = None))) \<and>
         (i18n h = NoTranslations \<longrightarrow>
            i18n (snd (updateSpellLevelsConfig maxLevel h)) = NoTranslations)"
proof -
  note L = labels_after_update[OF assms(1)]
  note M = slots_after_update[OF assms(1)]
  have 1: "fst (updateSpellLevelsConfig maxLevel h) = Normal"
    using assms(2) by (simp add: updateSpellLevelsConfig_normal)
  have 2: "\<exists>ls'. spellLevels (snd (updateSpellLevelsConfig maxLevel h)) = Some ls' \<and>
            (\<forall>t. 10 \<le> t \<and> t \<le> 99 \<longrightarrow>
                   ls' t = (if t \<le> maxLevel then Some (level_label t) else None)) \<and>
            (\<forall>t. t < 10 \<or> 99 < t \<longrightarrow> ls' t = ls t)"
    using assms by (auto simp: updateSpellLevelsConfig_normal L)
  have 3: "\<forall>m. i18n h = Slots m \<longrightarrow>
            (\<exists>m'. i18n (snd (updateSpellLevelsConfig maxLevel h)) = Slots m' \<and>
               (\<forall>t. 10 \<le> t \<and> t \<le> 99 \<longrightarrow>
                      m' (slot_key t) = (if t \<le> maxLevel then Some (level_label t) else None)) \<and>
               (\<forall>t. t < 10 \<or> 99 < t \<longrightarrow> m' (slot_key t) = m (slot_key t)) \<and>
               (\<forall>s. s \<notin> range slot_key \<longrightarrow> m' s = m s))"
    using assms by (auto simp: updateSpellLevelsConfig_normal M slots_after_update_other)
  have 4: "i18n h = NoSlots \<longrightarrow>
            (\<exists>m'. i18n (snd (updateSpellLevelsConfig maxLevel h)) = Slots m' \<and>
               (\<forall>t. m' (slot_key t) =
                      (if 10 \<le> t \<and> t \<le> maxLevel then Some (level_label t) else None)) \<and>
               (\<forall>s. s \<notin> range slot_key \<longrightarrow> m' s = None))"
    using assms by (auto simp: updateSpellLevelsConfig_normal M slots_after_update_other)
  have 5: "i18n h = NoTranslations \<longrightarrow>
            i18n (snd (updateSpellLevelsConfig maxLevel h)) = NoTranslations"
    using assms(2) by (simp add: updateSpellLevelsConfig_normal)
  show ?thesis using 1 2 3 4 5 by blast
qed

theorem purge_covers_10_to_99_only_witness:
  "fst (updateSpellLevelsConfig 12 stale_host) = Normal \<and>
   (\<exists>ls'. spellLevels (snd (updateSpellLevelsConfig 12 stale_host)) = Some ls' \<and>
          ls' 12 = Some ''12th Level'' \<and> ls' 50 = None \<and> ls' 100 = Some ''100th Level'')"
proof -
  have le: "(12::int) \<le> 99" by simp
  have sl: "spellLevels stale_host = Some stale_labels"
    by (simp add: stale_host_def)
  from purge_covers_10_to_99_only[OF le sl] obtain ls' where
    n: "fst (updateSpellLevelsConfig 12 stale_host) = Normal" and
    a: "spellLevels (snd (updateSpellLevelsConfig 12 stale_host)) = Some ls'" and
    b: "\<forall>t. 10 \<le> t \<and> t \<le> 99 \<longrightarrow> ls' t = (if t \<le> 12 then Some (level_label t) else None)" and
    c: "\<forall>t. t < 10 \<or> 99 < t \<longrightarrow> ls' t = stale_labels t"
    by blast
  have "ls' 12 = Some ''12th Level''"
    using b[rule_format, of 12] by (simp add: level_label_examples)
  moreover have "ls' 50 = None"
    using b[rule_format, of 50] by simp
  moreover have "ls' 100 = Some ''100th Level''"
    using c[rule_format, of 100] by (simp add: stale_labels_def)
  ultimately show ?thesis using n a by simp
qed

section \<open>Properties of the table patch\<close>

lemma extend_row_eq: "extend_row row n = row @ replicate (n - length row) 0"
proof (induction row n rule: extend_row.induct)
  case (1 row n)
  show ?case
  proof (cases "length row < n")
    case True
    then have "extend_row row n = extend_row (row @ [0]) n"
      by (subst extend_row.simps) simp
    also have "\<dots> = (row @ [0]) @ replicate (n - length (row @ [0])) 0"
      using 1 True by simp
    also have "\<dots> = row @ replicate (n - length row) 0"
      using True by (simp add: replicate_app_Cons_same Suc_diff_Suc flip: replicate_Suc)
    finally show ?thesis .
  next
    case False
    then show ?thesis by (subst extend_row.simps) simp
  qed
qed

lemma length_grant_cell: "length (grant_cell r c v t) = length t"
  by (simp add: grant_cell_def)

lemma grant_cell_row_length:
  "i < length t \<Longrightarrow>
   length (grant_cell r c v t ! i)
     = (if int i = r then max (length (t ! i)) (c + 1) else length (t ! i))"
  by (auto simp: grant_cell_def extend_row_eq nth_list_update)

lemma grant_cell_padded:
  "i < length t \<Longrightarrow>
   padded_cell (grant_cell r c v t) i j
     = (if int i = r \<and> j = c then v else padded_cell t i j)"
  by (auto simp: grant_cell_def padded_cell_def extend_row_eq nth_list_update nth_append)

lemma fold_grant_length:
  "length (fold (\<lambda>charLevel. grant_cell (charLevel - 1) c v) xs t) = length t"
  by (induction xs arbitrary: t) (simp_all add: length_grant_cell)

lemma fold_grant_padded:
  "i < length t \<Longrightarrow>
   padded_cell (fold (\<lambda>charLevel. grant_cell (charLevel - 1) c v) xs t) i j
     = (if j = c \<and> int i + 1 \<in> set xs then v else padded_cell t i j)"
proof (induction xs arbitrary: t)
  case Nil
  then show ?case by simp
next
  case (Cons x xs)
  have "i < length (grant_cell (x - 1) c v t)"
    using Cons.prems by (simp add: length_grant_cell)
  from Cons.IH[OF this] show ?case
    using Cons.prems by (auto simp: grant_cell_padded)
qed

lemma fold_grant_row_length:
  "i < length t \<Longrightarrow>
   length (fold (\<lambda>charLevel. grant_cell (charLevel - 1) c v) xs t ! i)
     = (if int i + 1 \<in> set xs then max (length (t ! i)) (c + 1) else length (t ! i))"
proof (induction xs arbitrary: t)
  case Nil
  then show ?case by simp
next
  case (Cons x xs)
  have "i < length (grant_cell (x - 1) c v t)"
    using Cons.prems by (simp add: length_grant_cell)
  from Cons.IH[OF this] show ?case
    using Cons.prems by (auto simp: grant_cell_row_length)
qed

lemma patch_tier_length: "length (patch_tier cfg spellLevel t) = length t"
  by (simp add: patch_tier_def fold_grant_length split: option.splits)

lemma patch_tier_padded:
  "i < length t \<Longrightarrow>
   padded_cell (patch_tier cfg spellLevel t) i j
     = (case levels cfg spellLevel of
          None \<Rightarrow> padded_cell t i j
        | Some r \<Rightarrow>
            if isEnabled (Some r) \<and> j = nat (spellLevel - 1) \<and>
               requiredCharLevel r \<le> int i + 1 \<and> int i + 1 \<le> 20
            then slotsToGrant r else padded_cell t i j)"
  by (auto simp: patch_tier_def fold_grant_padded split: option.splits)

lemma patch_tier_row_length:
  "i < length t \<Longrightarrow>
   length (patch_tier cfg spellLevel t ! i)
     = (case levels cfg spellLevel of
          None \<Rightarrow> length (t ! i)
        | Some r \<Rightarrow>
            if isEnabled (Some r) \<and> requiredCharLevel r \<le> int i + 1 \<and> int i + 1 \<le> 20
            then max (length (t ! i)) (nat (spellLevel - 1) + 1) else length (t ! i))"
  by (auto simp: patch_tier_def fold_grant_row_length split: option.splits)

lemma fold_patch_tier_length: "length (fold (patch_tier cfg) xs t) = length t"
  by (induction xs arbitrary: t) (simp_all add: patch_tier_length)

lemma fold_patch_tier_padded:
  assumes "i < length t" and "\<forall>spellLevel \<in> set xs. 1 \<le> spellLevel"
  shows "padded_cell (fold (patch_tier cfg) xs t) i j
     = (case levels cfg (int j + 1) of
          None \<Rightarrow> padded_cell t i j
        | Some r \<Rightarrow>
            if int j + 1 \<in> set xs \<and> isEnabled (Some r) \<and>
               requiredCharLevel r \<le> int i + 1 \<and> int i + 1 \<le> 20
            then slotsToGrant r else padded_cell t i j)"
  using assms
proof (induction xs arbitrary: t)
  case Nil
  then show ?case by (simp split: option.splits)
next
  case (Cons x xs)
  have l: "i < length (patch_tier cfg x t)"
    using Cons.prems by (simp add: patch_tier_length)
  have x: "1 \<le> x" and xs: "\<forall>spellLevel \<in> set xs. 1 \<le> spellLevel"
    using Cons.prems by simp_all
  have eq: "j = nat (x - 1) \<longleftrightarrow> x = int j + 1"
    using x by auto
  show ?case
    using Cons.IH[OF l xs] Cons.prems(1)
    by (auto simp: patch_tier_padded eq split: option.splits)
qed

lemma fold_patch_tier_row_mono:
  "i < length t \<Longrightarrow> length (t ! i) \<le> length (fold (patch_tier cfg) xs t ! i)"
proof (induction xs arbitrary: t)
  case Nil
  then show ?case by simp
next
  case (Cons x xs)
  have l: "i < length (patch_tier cfg x t)"
    using Cons.prems by (simp add: patch_tier_length)
  have "length (t ! i) \<le> length (patch_tier cfg x t ! i)"
    using Cons.prems by (auto simp: patch_tier_row_length split: option.splits)
  with Cons.IH[OF l] show ?case by simp
qed

lemma fold_patch_tier_row_bound:
  assumes "i < length t" and "\<forall>spellLevel \<in> set xs. 1 \<le> spellLevel"
      and "j < length (fold (patch_tier cfg) xs t ! i)"
  shows "j < length (t ! i) \<or>
         (\<exists>j' r. j \<le> j' \<and> int j' + 1 \<in> set xs \<and> levels cfg (int j' + 1) = Some r \<and>
                 isEnabled (Some r) \<and> requiredCharLevel r \<le> int i + 1 \<and> int i + 1 \<le> 20)"
  using assms
proof (induction xs arbitrary: t)
  case Nil
  then show ?case by simp
next
  case (Cons x xs)
  have l: "i < length (patch_tier cfg x t)"
    using Cons.prems by (simp add: patch_tier_length)
  have x: "1 \<le> x" and xs: "\<forall>spellLevel \<in> set xs. 1 \<le> spellLevel"
    using Cons.prems by simp_all
  have j: "j < length (fold (patch_tier cfg) xs (patch_tier cfg x t) ! i)"
    using Cons.prems(3) by simp
  from Cons.IH[OF l xs j]
  consider (old) "j < length (patch_tier cfg x t ! i)"
    | (new) j' r where "j \<le> j'" "int j' + 1 \<in> set xs" "levels cfg (int j' + 1) = Some r"
        "isEnabled (Some r)" "requiredCharLevel r \<le> int i + 1" "int i + 1 \<le> 20"
    by blast
  then show ?case
  proof cases
    case old
    show ?thesis
    proof (cases "j < length (t ! i)")
      case True
      then show ?thesis by simp
    next
      case False
      with old Cons.prems(1) obtain r where
        r: "levels cfg x = Some r" "isEnabled (Some r)" "requiredCharLevel r \<le> int i + 1"
           "int i + 1 \<le> 20" "j < nat (x - 1) + 1"
        by (auto simp: patch_tier_row_length split: option.splits if_splits)
      have "int (nat (x - 1)) + 1 = x" using x by simp
      with r have "j \<le> nat (x - 1) \<and> int (nat (x - 1)) + 1 \<in> set (x # xs) \<and>
          levels cfg (int (nat (x - 1)) + 1) = Some r \<and> isEnabled (Some r) \<and>
          requiredCharLevel r \<le> int i + 1 \<and> int i + 1 \<le> 20"
        by simp
      then show ?thesis by blast
    qed
  next
    case new
    then have "j \<le> j' \<and> int j' + 1 \<in> set (x # xs) \<and> levels cfg (int j' + 1) = Some r \<and>
        isEnabled (Some r) \<and> requiredCharLevel r \<le> int i + 1 \<and> int i + 1 \<le> 20"
      by simp
    then show ?thesis by blast
  qed
qed

lemma length_patch_table: "length (patch_table cfg t) = length t"
  by (simp add: patch_table_def fold_patch_tier_length)

lemma patch_table_padded:
  assumes "i < length t"
  shows "padded_cell (patch_table cfg t) i j
           = (case granting_rule cfg i j of
                None \<Rightarrow> padded_cell t i j
              | Some r \<Rightarrow> slotsToGrant r)"
proof -
  have "\<forall>spellLevel \<in> set [10..maxSpellLevel cfg]. 1 \<le> spellLevel" by simp
  from fold_patch_tier_padded[OF assms this, of cfg j]
  show ?thesis
    by (auto simp: patch_table_def granting_rule_def split: option.splits)
qed

lemma patch_table_row_mono:
  "i < length t \<Longrightarrow> length (t ! i) \<le> length (patch_table cfg t ! i)"
  by (simp add: patch_table_def fold_patch_tier_row_mono)

lemma patch_table_row_bound:
  assumes "i < length t" and "j < length (patch_table cfg t ! i)"
  shows "j < length (t ! i) \<or> (\<exists>j'. j \<le> j' \<and> granting_rule cfg i j' \<noteq> None)"
proof -
  have a: "\<forall>spellLevel \<in> set [10..maxSpellLevel cfg]. 1 \<le> spellLevel" by simp
  have b: "j < length (fold (patch_tier cfg) [10..maxSpellLevel cfg] t ! i)"
    using assms(2) by (simp add: patch_table_def)
  from fold_patch_tier_row_bound[OF assms(1) a b]
  show ?thesis
    by (auto simp: granting_rule_def)
qed

section \<open>Properties of \<open>applyExpandedSpellSlots\<close>\<close>

lemma relabel_idem:
  assumes "inj key"
  shows "fold (\<lambda>k m. m(key k \<mapsto> val k)) [10..maxLevel]
           (fold (\<lambda>k m. m(key k := None)) [10..99]
              (fold (\<lambda>k m. m(key k \<mapsto> val k)) [10..maxLevel]
                 (fold (\<lambda>k m. m(key k := None)) [10..99] m)))
         = fold (\<lambda>k m. m(key k \<mapsto> val k)) [10..maxLevel]
             (fold (\<lambda>k m. m(key k := None)) [10..99] m)"
proof (rule ext)
  fix s
  let ?F = "\<lambda>m. fold (\<lambda>k m. m(key k \<mapsto> val k)) [10..maxLevel]
                   (fold (\<lambda>k m. m(key k := None)) [10..99] m)"
  show "?F (?F m) s = ?F m s"
  proof (cases "s \<in> key ` {10..maxLevel}")
    case True
    then obtain j where j: "s = key j" "10 \<le> j" "j \<le> maxLevel" by auto
    show ?thesis
      unfolding j(1)
      by (simp only: installed_lookup[OF assms j(2,3)])
  next
    case False
    show ?thesis
      by (simp add: purged_lookup[OF False])
  qed
qed

lemmas labels_idem = relabel_idem[where key = "\<lambda>k::int. k", simplified]

lemmas slots_idem = relabel_idem[OF inj_slot_key]

lemma applyExpandedSpellSlots_no_table:
  assumes "originalSpellSlotTable h = None" and "SPELL_SLOT_TABLE h = None"
  shows "applyExpandedSpellSlots h = (Throw TypeError, h)"
  using assms by (simp add: applyExpandedSpellSlots_def)

lemma applyExpandedSpellSlots_no_labels:
  assumes "(case originalSpellSlotTable h of Some original \<Rightarrow> Some original
            | None \<Rightarrow> SPELL_SLOT_TABLE h) = Some original"
      and "spellLevels h = None"
  shows "applyExpandedSpellSlots h
           = (Throw TypeError,
              ensure_namespace (h\<lparr>originalSpellSlotTable := Some original,
                                  SPELL_SLOT_TABLE := Some original\<rparr>))"
  using assms
  by (simp add: applyExpandedSpellSlots_def Let_def updateSpellLevelsConfig_throw)

lemma applyExpandedSpellSlots_normal:
  assumes "(case originalSpellSlotTable h of Some original \<Rightarrow> Some original
            | None \<Rightarrow> SPELL_SLOT_TABLE h) = Some original"
      and "spellLevels h = Some ls"
  shows "applyExpandedSpellSlots h
           = (Normal,
              (snd (updateSpellLevelsConfig (maxSpellLevel (getConfig (setting h)))
                      (h\<lparr>originalSpellSlotTable := Some original,
                         SPELL_SLOT_TABLE := Some original\<rparr>)))
              \<lparr>SPELL_SLOT_TABLE := Some (patch_table (getConfig (setting h)) original),
               spell_table := (case spell_table h of
                                 None \<Rightarrow> None
                               | Some cached \<Rightarrow>
                                   Some (patch_table (getConfig (setting h)) original))\<rparr>)"
  using assms
  by (simp add: applyExpandedSpellSlots_def Let_def updateSpellLevelsConfig_normal
      split: option.splits)

lemma ensure_namespace_idem: "ensure_namespace (ensure_namespace h) = ensure_namespace h"
  by (simp add: ensure_namespace_def split: i18n_state.splits)

text \<open>
  C1. Calling \<open>applyExpandedSpellSlots\<close> a second time, directly after a first call, changes
  nothing: the second call completes as the first did and leaves the same host state, and
  so in particular the same slot table. The snapshot is taken by the first call at the
  latest, and every call starts from it.
\<close>

theorem apply_twice_is_apply_once:
  "applyExpandedSpellSlots (snd (applyExpandedSpellSlots h)) = applyExpandedSpellSlots h \<and>
   SPELL_SLOT_TABLE (snd (applyExpandedSpellSlots (snd (applyExpandedSpellSlots h))))
     = SPELL_SLOT_TABLE (snd (applyExpandedSpellSlots h))"
proof -
  let ?snapshot = "case originalSpellSlotTable h of Some original \<Rightarrow> Some original
                   | None \<Rightarrow> SPELL_SLOT_TABLE h"
  have "applyExpandedSpellSlots (snd (applyExpandedSpellSlots h)) = applyExpandedSpellSlots h"
  proof (cases ?snapshot)
    case None
    then have "originalSpellSlotTable h = None" "SPELL_SLOT_TABLE h = None"
      by (simp_all split: option.splits)
    then show ?thesis by (simp add: applyExpandedSpellSlots_no_table)
  next
    case (Some original)
    show ?thesis
    proof (cases "spellLevels h")
      case None
      let ?h1 = "ensure_namespace (h\<lparr>originalSpellSlotTable := Some original,
                                       SPELL_SLOT_TABLE := Some original\<rparr>)"
      have first: "applyExpandedSpellSlots h = (Throw TypeError, ?h1)"
        by (rule applyExpandedSpellSlots_no_labels[OF Some None])
      have s1: "(case originalSpellSlotTable ?h1 of Some original \<Rightarrow> Some original
                 | None \<Rightarrow> SPELL_SLOT_TABLE ?h1) = Some original"
        by (simp add: ensure_namespace_def)
      have l1: "spellLevels ?h1 = None"
        using None by (simp add: ensure_namespace_def)
      have "applyExpandedSpellSlots ?h1 = (Throw TypeError, ?h1)"
        unfolding applyExpandedSpellSlots_no_labels[OF s1 l1]
        by (simp add: ensure_namespace_def split: i18n_state.splits)
      then show ?thesis by (simp add: first)
    next
      case (Some ls)
      note snap = \<open>?snapshot = Some original\<close>
      let ?cfg = "getConfig (setting h)"
      let ?h1 = "h\<lparr>originalSpellSlotTable := Some original, SPELL_SLOT_TABLE := Some original\<rparr>"
      have l1: "spellLevels ?h1 = Some ls" using Some by simp
      note u1 = updateSpellLevelsConfig_normal[OF l1, of "maxSpellLevel ?cfg"]
      note first = applyExpandedSpellSlots_normal[OF snap Some, unfolded u1 snd_conv]
      obtain h3 where h3: "applyExpandedSpellSlots h = (Normal, h3)"
        using first by simp
      have h3_eq: "h3 = snd (applyExpandedSpellSlots h)" using h3 by simp
      have s3: "(case originalSpellSlotTable h3 of Some original \<Rightarrow> Some original
                 | None \<Rightarrow> SPELL_SLOT_TABLE h3) = Some original"
        unfolding h3_eq first by simp
      obtain ls3 where l3: "spellLevels h3 = Some ls3"
        unfolding h3_eq first by simp
      have c3: "setting h3 = setting h"
        unfolding h3_eq first by simp
      let ?h4 = "h3\<lparr>originalSpellSlotTable := Some original, SPELL_SLOT_TABLE := Some original\<rparr>"
      have l4: "spellLevels ?h4 = Some ls3" using l3 by simp
      note u4 = updateSpellLevelsConfig_normal[OF l4, of "maxSpellLevel ?cfg"]
      note second = applyExpandedSpellSlots_normal[OF s3 l3, unfolded c3 u4 snd_conv]
      have "applyExpandedSpellSlots h3 = (Normal, h3)"
        unfolding second
        using l3 unfolding h3_eq first
        by (cases "i18n h"; cases "spell_table h")
           (auto simp: labels_idem slots_idem)
      then show ?thesis using h3 by simp
    qed
  qed
  then show ?thesis by simp
qed

lemma fold_patch_tier_row_reaches:
  assumes "i < length t" and "1 \<le> spellLevel" and "spellLevel \<in> set xs"
      and "levels cfg spellLevel = Some r" and "isEnabled (Some r)"
      and "requiredCharLevel r \<le> int i + 1" and "int i + 1 \<le> 20"
  shows "nat (spellLevel - 1) < length (fold (patch_tier cfg) xs t ! i)"
  using assms(1,3)
proof (induction xs arbitrary: t)
  case Nil
  then show ?case by simp
next
  case (Cons x xs)
  have l: "i < length (patch_tier cfg x t)"
    using Cons.prems by (simp add: patch_tier_length)
  show ?case
  proof (cases "spellLevel \<in> set xs")
    case True
    from Cons.IH[OF l True] show ?thesis by simp
  next
    case False
    then have "x = spellLevel" using Cons.prems by simp
    then have "nat (spellLevel - 1) < length (patch_tier cfg x t ! i)"
      using Cons.prems(1) assms(4-7) by (simp add: patch_tier_row_length)
    also have "\<dots> \<le> length (fold (patch_tier cfg) xs (patch_tier cfg x t) ! i)"
      by (rule fold_patch_tier_row_mono[OF l])
    finally show ?thesis by simp
  qed
qed

lemma patch_table_row_reaches:
  assumes "i < length t" and "granting_rule cfg i j = Some r"
  shows "j < length (patch_table cfg t ! i)"
proof -
  from assms(2) have g: "levels cfg (int j + 1) = Some r" "10 \<le> int j + 1"
    "int j + 1 \<le> maxSpellLevel cfg" "isEnabled (Some r)"
    "requiredCharLevel r \<le> int i + 1" "int i + 1 \<le> 20"
    by (auto simp: granting_rule_def split: option.splits if_splits)
  have "int j + 1 \<in> set [10..maxSpellLevel cfg]" using g(2,3) by simp
  from fold_patch_tier_row_reaches[OF assms(1) _ this g(1) g(4) g(5) g(6)]
  show ?thesis using g(2) by (simp add: patch_table_def)
qed

lemma patch_table_cell:
  assumes "i < length t" and "j < length (patch_table cfg t ! i)"
  shows "patch_table cfg t ! i ! j
           = (case granting_rule cfg i j of
                None \<Rightarrow> padded_cell t i j
              | Some r \<Rightarrow> slotsToGrant r)"
  using patch_table_padded[OF assms(1), of cfg j] assms(2)
  by (simp add: padded_cell_def)

lemma patch_table_row_unchanged:
  assumes "i < length t" and "\<forall>j. granting_rule cfg i j = None"
  shows "patch_table cfg t ! i = t ! i"
proof (rule nth_equalityI)
  have "length (patch_table cfg t ! i) \<le> length (t ! i)"
  proof (rule ccontr)
    assume "\<not> length (patch_table cfg t ! i) \<le> length (t ! i)"
    then have "length (t ! i) < length (patch_table cfg t ! i)" by simp
    from patch_table_row_bound[OF assms(1) this] assms(2) show False by simp
  qed
  with patch_table_row_mono[OF assms(1), of cfg]
  show len: "length (patch_table cfg t ! i) = length (t ! i)" by simp
  fix j assume "j < length (patch_table cfg t ! i)"
  with len show "patch_table cfg t ! i ! j = t ! i ! j"
    using patch_table_cell[OF assms(1), of j cfg] assms(2)
    by (simp add: padded_cell_def)
qed

lemma applyExpandedSpellSlots_table:
  assumes "(case originalSpellSlotTable h of Some original \<Rightarrow> Some original
            | None \<Rightarrow> SPELL_SLOT_TABLE h) = Some original"
      and "spellLevels h = Some ls"
  shows "fst (applyExpandedSpellSlots h) = Normal"
    and "SPELL_SLOT_TABLE (snd (applyExpandedSpellSlots h))
           = Some (patch_table (getConfig (setting h)) original)"
    and "originalSpellSlotTable (snd (applyExpandedSpellSlots h)) = Some original"
    and "spell_table (snd (applyExpandedSpellSlots h))
           = (case spell_table h of
                None \<Rightarrow> None
              | Some cached \<Rightarrow> Some (patch_table (getConfig (setting h)) original))"
  unfolding applyExpandedSpellSlots_normal[OF assms]
  by (simp_all add: updateSpellLevelsConfig_normal assms(2))

text \<open>
  C10. A call of \<open>applyExpandedSpellSlots\<close> that finds a table (or a snapshot) and the label
  table completes, whatever rows the table has, and the patched table has the rows of the
  snapshot and no other: a character level without a row is skipped. In a row that
  exists, every cell that a rule grants is there and holds the slot count of that rule;
  every other cell the snapshot had keeps its number; and a cell the snapshot did not
  have is \<open>0\<close> and lies before a granted cell of the same row.
\<close>

theorem no_new_rows_and_zero_fill:
  assumes "(case originalSpellSlotTable h of Some original \<Rightarrow> Some original
            | None \<Rightarrow> SPELL_SLOT_TABLE h) = Some original"
      and "spellLevels h = Some ls"
  shows "fst (applyExpandedSpellSlots h) = Normal \<and>
         (\<exists>t'. SPELL_SLOT_TABLE (snd (applyExpandedSpellSlots h)) = Some t' \<and>
            length t' = length original \<and>
            (\<forall>i < length original.
               length (original ! i) \<le> length (t' ! i) \<and>
               (\<forall>j r. granting_rule (getConfig (setting h)) i j = Some r \<longrightarrow>
                  j < length (t' ! i) \<and> t' ! i ! j = slotsToGrant r) \<and>
               (\<forall>j < length (t' ! i). granting_rule (getConfig (setting h)) i j = None \<longrightarrow>
                  t' ! i ! j = (if j < length (original ! i) then original ! i ! j else 0) \<and>
                  (j < length (original ! i) \<or>
                   (\<exists>j'. j < j' \<and> granting_rule (getConfig (setting h)) i j' \<noteq> None)))))"
proof -
  let ?cfg = "getConfig (setting h)"
  let ?t' = "patch_table ?cfg original"
  have rows: "\<forall>i < length original.
       length (original ! i) \<le> length (?t' ! i) \<and>
       (\<forall>j r. granting_rule ?cfg i j = Some r \<longrightarrow>
          j < length (?t' ! i) \<and> ?t' ! i ! j = slotsToGrant r) \<and>
       (\<forall>j < length (?t' ! i). granting_rule ?cfg i j = None \<longrightarrow>
          ?t' ! i ! j = (if j < length (original ! i) then original ! i ! j else 0) \<and>
          (j < length (original ! i) \<or> (\<exists>j'. j < j' \<and> granting_rule ?cfg i j' \<noteq> None)))"
  proof (intro allI impI conjI)
    fix i assume i: "i < length original"
    show "length (original ! i) \<le> length (?t' ! i)"
      by (rule patch_table_row_mono[OF i])
    {
      fix j r assume g: "granting_rule ?cfg i j = Some r"
      show len: "j < length (?t' ! i)"
        by (rule patch_table_row_reaches[OF i g])
      show "?t' ! i ! j = slotsToGrant r"
        using patch_table_cell[OF i len] g by simp
    }
    {
      fix j assume j: "j < length (?t' ! i)" and n: "granting_rule ?cfg i j = None"
      show "?t' ! i ! j = (if j < length (original ! i) then original ! i ! j else 0)"
        using patch_table_cell[OF i j] n by (simp add: padded_cell_def)
      from patch_table_row_bound[OF i j]
      show "j < length (original ! i) \<or> (\<exists>j'. j < j' \<and> granting_rule ?cfg i j' \<noteq> None)"
        using n by (metis le_neq_implies_less)
    }
  qed
  show ?thesis
    using applyExpandedSpellSlots_table(1,2)[OF assms] rows
    by (simp add: length_patch_table)
qed

lemma getConfig_fresh:
  "getConfig ReadThrows = DEFAULT_CONFIG"
  "getConfig (ReadValue (stored_of DEFAULT_CONFIG)) = DEFAULT_CONFIG"
  "getConfig (ReadValue \<lparr>stored_maxSpellLevel = None, stored_levels = None\<rparr>) = DEFAULT_CONFIG"
  by (simp_all add: getConfig_def stored_of_def)

lemma granting_rule_default:
  "granting_rule DEFAULT_CONFIG i j =
     (if j = 9 \<and> 18 \<le> i \<and> i \<le> 19
      then Some \<lparr>enabled = JBool True, characterLevel = JNum 19, slots = JNum 1\<rparr>
      else if (j = 10 \<or> j = 11) \<and> i = 19
      then Some \<lparr>enabled = JBool True, characterLevel = JNum 20, slots = JNum 1\<rparr>
      else None)"
  by (auto simp: granting_rule_def DEFAULT_CONFIG_def isEnabled_def requiredCharLevel_def
      or_default_def)

theorem no_new_rows_and_zero_fill_witness:
  "fst (applyExpandedSpellSlots short_host) = Normal \<and>
   (\<exists>t'. SPELL_SLOT_TABLE (snd (applyExpandedSpellSlots short_host)) = Some t' \<and>
      length t' = 19 \<and> t' ! 18 ! 9 = 1 \<and> t' ! 18 ! 8 = 1 \<and> t' ! 17 ! 8 = 1)"
proof -
  let ?original = "take 19 example_table"
  have s: "(case originalSpellSlotTable short_host of Some original \<Rightarrow> Some original
            | None \<Rightarrow> SPELL_SLOT_TABLE short_host) = Some ?original"
    by (simp add: short_host_def fresh_host_def)
  have l: "spellLevels short_host = Some example_spellLevels"
    by (simp add: short_host_def fresh_host_def)
  have c: "getConfig (setting short_host) = DEFAULT_CONFIG"
    by (simp add: short_host_def fresh_host_def getConfig_fresh)
  have len: "length ?original = 19"
    by (simp add: example_table_def)
  have r18: "length (example_table ! 18) = 9" "example_table ! 18 ! 8 = 1"
    and r17: "length (example_table ! 17) = 9" "example_table ! 17 ! 8 = 1"
    by (simp_all add: example_table_def)
  from no_new_rows_and_zero_fill[OF s l, unfolded c granting_rule_default len]
  obtain t' where
    n: "fst (applyExpandedSpellSlots short_host) = Normal" and
    t: "SPELL_SLOT_TABLE (snd (applyExpandedSpellSlots short_host)) = Some t'" "length t' = 19" and
    rows: "\<forall>i<19. length (?original ! i) \<le> length (t' ! i) \<and>
       (\<forall>j r. (if j = 9 \<and> 18 \<le> i \<and> i \<le> 19
          then Some \<lparr>enabled = JBool True, characterLevel = JNum 19, slots = JNum 1\<rparr>
          else if (j = 10 \<or> j = 11) \<and> i = 19
          then Some \<lparr>enabled = JBool True, characterLevel = JNum 20, slots = JNum 1\<rparr>
          else None) = Some r \<longrightarrow> j < length (t' ! i) \<and> t' ! i ! j = slotsToGrant r) \<and>
       (\<forall>j<length (t' ! i).
          (if j = 9 \<and> 18 \<le> i \<and> i \<le> 19
          then Some \<lparr>enabled = JBool True, characterLevel = JNum 19, slots = JNum 1\<rparr>
          else if (j = 10 \<or> j = 11) \<and> i = 19
          then Some \<lparr>enabled = JBool True, characterLevel = JNum 20, slots = JNum 1\<rparr>
          else None) = None \<longrightarrow>
          t' ! i ! j = (if j < length (?original ! i) then ?original ! i ! j else 0) \<and>
          (j < length (?original ! i) \<or>
           (\<exists>j'. j < j' \<and>
              (if j' = 9 \<and> 18 \<le> i \<and> i \<le> 19
               then Some \<lparr>enabled = JBool True, characterLevel = JNum 19, slots = JNum 1\<rparr>
               else if (j' = 10 \<or> j' = 11) \<and> i = 19
               then Some \<lparr>enabled = JBool True, characterLevel = JNum 20, slots = JNum 1\<rparr>
               else None) \<noteq> None)))"
    by blast
  from rows[rule_format, of 18]
  have b: "\<forall>j r. (if j = 9 then Some \<lparr>enabled = JBool True, characterLevel = JNum 19, slots = JNum 1\<rparr> else None) = Some r \<longrightarrow> j < length (t' ! 18) \<and> t' ! 18 ! j = slotsToGrant r"
    and c18: "\<forall>j<length (t' ! 18). j \<noteq> 9 \<longrightarrow> t' ! 18 ! j = (if j < 9 then example_table ! 18 ! j else 0)"
    by (simp_all add: r18)
  from b[rule_format, of 9] have "t' ! 18 ! 9 = 1"
    by (simp add: slotsToGrant_def or_default_def)
  moreover from b[rule_format, of 9] c18[rule_format, of 8] have "t' ! 18 ! 8 = 1"
    by (simp add: r18)
  moreover from rows[rule_format, of 17] have "9 \<le> length (t' ! 17)"
    and "\<forall>j<length (t' ! 17). t' ! 17 ! j = (if j < 9 then example_table ! 17 ! j else 0)"
    by (simp_all add: r17)
  then have "t' ! 17 ! 8 = 1" by (simp add: r17)
  ultimately show ?thesis using n t by simp
qed

lemma patch_default_table:
  "patch_table DEFAULT_CONFIG example_table =
     [[2], [3], [4, 2], [4, 3], [4, 3, 2], [4, 3, 3], [4, 3, 3, 1], [4, 3, 3, 2],
      [4, 3, 3, 3, 1], [4, 3, 3, 3, 2], [4, 3, 3, 3, 2, 1], [4, 3, 3, 3, 2, 1],
      [4, 3, 3, 3, 2, 1, 1], [4, 3, 3, 3, 2, 1, 1], [4, 3, 3, 3, 2, 1, 1, 1],
      [4, 3, 3, 3, 2, 1, 1, 1], [4, 3, 3, 3, 2, 1, 1, 1, 1], [4, 3, 3, 3, 3, 1, 1, 1, 1],
      [4, 3, 3, 3, 3, 2, 1, 1, 1, 1], [4, 3, 3, 3, 3, 2, 2, 1, 1, 1, 1, 1]]"
  by code_simp

text \<open>
  C2. On a fresh install the setting read throws, or returns the registered default, or
  returns an object with neither key; in each case \<open>getConfig\<close> gives \<open>DEFAULT_CONFIG\<close>:
  \<open>maxSpellLevel = 12\<close>, tier 10 enabled at character level 19 with one slot, tiers 11
  and 12 enabled at character level 20 with one slot. Applied to a pristine table of twenty
  rows it stores \<open>1\<close> in the cells \<open>[18][9]\<close>, \<open>[19][9]\<close>, \<open>[19][10]\<close> and \<open>[19][11]\<close>,
  leaves the rows of the character levels 1 to 18 as they were, and leaves every other
  cell that the rows 18 and 19 had as it was.
\<close>

theorem default_scenario:
  assumes "setting h = ReadThrows \<or> setting h = ReadValue (stored_of DEFAULT_CONFIG) \<or>
           setting h = ReadValue \<lparr>stored_maxSpellLevel = None, stored_levels = None\<rparr>"
      and "originalSpellSlotTable h = None"
      and "SPELL_SLOT_TABLE h = Some t"
      and "length t = 20"
      and "spellLevels h = Some ls"
  shows "maxSpellLevel (getConfig (setting h)) = 12 \<and>
         levels (getConfig (setting h)) 10
           = Some \<lparr>enabled = JBool True, characterLevel = JNum 19, slots = JNum 1\<rparr> \<and>
         levels (getConfig (setting h)) 11
           = Some \<lparr>enabled = JBool True, characterLevel = JNum 20, slots = JNum 1\<rparr> \<and>
         levels (getConfig (setting h)) 12
           = Some \<lparr>enabled = JBool True, characterLevel = JNum 20, slots = JNum 1\<rparr> \<and>
         fst (applyExpandedSpellSlots h) = Normal \<and>
         (\<exists>t'. SPELL_SLOT_TABLE (snd (applyExpandedSpellSlots h)) = Some t' \<and>
            length t' = 20 \<and>
            9 < length (t' ! 18) \<and> t' ! 18 ! 9 = 1 \<and>
            11 < length (t' ! 19) \<and> t' ! 19 ! 9 = 1 \<and> t' ! 19 ! 10 = 1 \<and> t' ! 19 ! 11 = 1 \<and>
            (\<forall>i < 18. t' ! i = t ! i) \<and>
            (\<forall>j < length (t ! 18). j \<noteq> 9 \<longrightarrow> t' ! 18 ! j = t ! 18 ! j) \<and>
            (\<forall>j < length (t ! 19). j \<noteq> 9 \<and> j \<noteq> 10 \<and> j \<noteq> 11 \<longrightarrow> t' ! 19 ! j = t ! 19 ! j))"
proof -
  have c: "getConfig (setting h) = DEFAULT_CONFIG"
    using assms(1) getConfig_fresh by auto
  have s: "(case originalSpellSlotTable h of Some original \<Rightarrow> Some original
            | None \<Rightarrow> SPELL_SLOT_TABLE h) = Some t"
    using assms(2,3) by simp
  let ?t' = "patch_table DEFAULT_CONFIG t"
  note G = granting_rule_default
  have i18: "18 < length t" and i19: "19 < length t" using assms(4) by simp_all
  have r10: "slotsToGrant \<lparr>enabled = JBool True, characterLevel = JNum 19, slots = JNum 1\<rparr> = 1"
    and r20: "slotsToGrant \<lparr>enabled = JBool True, characterLevel = JNum 20, slots = JNum 1\<rparr> = 1"
    by (simp_all add: slotsToGrant_def or_default_def)
  have a: "9 < length (?t' ! 18)"
    by (rule patch_table_row_reaches[OF i18]) (simp add: G)
  have b: "11 < length (?t' ! 19)"
    by (rule patch_table_row_reaches[OF i19]) (simp add: G)
  have a9: "?t' ! 18 ! 9 = 1"
    using patch_table_cell[OF i18 a] by (simp add: G r10)
  have b9: "?t' ! 19 ! 9 = 1" and b10: "?t' ! 19 ! 10 = 1" and b11: "?t' ! 19 ! 11 = 1"
    using patch_table_cell[OF i19, of 9 DEFAULT_CONFIG]
      patch_table_cell[OF i19, of 10 DEFAULT_CONFIG]
      patch_table_cell[OF i19 b] b
    by (simp_all add: G r10 r20)
  have low: "\<forall>i < 18. ?t' ! i = t ! i"
  proof (intro allI impI)
    fix i :: nat assume "i < 18"
    then have "i < length t" and "\<forall>j. granting_rule DEFAULT_CONFIG i j = None"
      using assms(4) by (simp_all add: G)
    then show "?t' ! i = t ! i" by (rule patch_table_row_unchanged)
  qed
  have o18: "\<forall>j < length (t ! 18). j \<noteq> 9 \<longrightarrow> ?t' ! 18 ! j = t ! 18 ! j"
  proof (intro allI impI)
    fix j assume j: "j < length (t ! 18)" "j \<noteq> 9"
    then have "j < length (?t' ! 18)"
      using patch_table_row_mono[OF i18, of DEFAULT_CONFIG] by simp
    from patch_table_cell[OF i18 this] j show "?t' ! 18 ! j = t ! 18 ! j"
      by (simp add: G padded_cell_def)
  qed
  have o19: "\<forall>j < length (t ! 19). j \<noteq> 9 \<and> j \<noteq> 10 \<and> j \<noteq> 11 \<longrightarrow> ?t' ! 19 ! j = t ! 19 ! j"
  proof (intro allI impI)
    fix j assume j: "j < length (t ! 19)" "j \<noteq> 9 \<and> j \<noteq> 10 \<and> j \<noteq> 11"
    then have "j < length (?t' ! 19)"
      using patch_table_row_mono[OF i19, of DEFAULT_CONFIG] by simp
    from patch_table_cell[OF i19 this] j show "?t' ! 19 ! j = t ! 19 ! j"
      by (simp add: G padded_cell_def)
  qed
  have cfg: "maxSpellLevel DEFAULT_CONFIG = 12"
    "levels DEFAULT_CONFIG 10 = Some \<lparr>enabled = JBool True, characterLevel = JNum 19, slots = JNum 1\<rparr>"
    "levels DEFAULT_CONFIG 11 = Some \<lparr>enabled = JBool True, characterLevel = JNum 20, slots = JNum 1\<rparr>"
    "levels DEFAULT_CONFIG 12 = Some \<lparr>enabled = JBool True, characterLevel = JNum 20, slots = JNum 1\<rparr>"
    by (simp_all add: DEFAULT_CONFIG_def)
  have tab: "SPELL_SLOT_TABLE (snd (applyExpandedSpellSlots h)) = Some ?t'"
    using applyExpandedSpellSlots_table(2)[OF s assms(5)] by (simp add: c)
  have len: "length ?t' = 20"
    using assms(4) by (simp add: length_patch_table)
  show ?thesis
    unfolding c tab
    using applyExpandedSpellSlots_table(1)[OF s assms(5)] cfg len a a9 b b9 b10 b11 low o18 o19
    by simp
qed

theorem default_scenario_witness:
  "maxSpellLevel (getConfig (setting fresh_host)) = 12 \<and>
   fst (applyExpandedSpellSlots fresh_host) = Normal \<and>
   SPELL_SLOT_TABLE (snd (applyExpandedSpellSlots fresh_host)) =
     Some [[2], [3], [4, 2], [4, 3], [4, 3, 2], [4, 3, 3], [4, 3, 3, 1], [4, 3, 3, 2],
      [4, 3, 3, 3, 1], [4, 3, 3, 3, 2], [4, 3, 3, 3, 2, 1], [4, 3, 3, 3, 2, 1],
      [4, 3, 3, 3, 2, 1, 1], [4, 3, 3, 3, 2, 1, 1], [4, 3, 3, 3, 2, 1, 1, 1],
      [4, 3, 3, 3, 2, 1, 1, 1], [4, 3, 3, 3, 2, 1, 1, 1, 1], [4, 3, 3, 3, 3, 1, 1, 1, 1],
      [4, 3, 3, 3, 3, 2, 1, 1, 1, 1], [4, 3, 3, 3, 3, 2, 2, 1, 1, 1, 1, 1]]"
proof -
  have 1: "setting fresh_host = ReadThrows \<or> setting fresh_host = ReadValue (stored_of DEFAULT_CONFIG) \<or>
           setting fresh_host = ReadValue \<lparr>stored_maxSpellLevel = None, stored_levels = None\<rparr>"
    and 2: "originalSpellSlotTable fresh_host = None"
    and 3: "SPELL_SLOT_TABLE fresh_host = Some example_table"
    and 5: "spellLevels fresh_host = Some example_spellLevels"
    by (simp_all add: fresh_host_def)
  have 4: "length example_table = 20"
    by (simp add: example_table_def)
  have s: "(case originalSpellSlotTable fresh_host of Some original \<Rightarrow> Some original
            | None \<Rightarrow> SPELL_SLOT_TABLE fresh_host) = Some example_table"
    using 2 3 by simp
  have c: "getConfig (setting fresh_host) = DEFAULT_CONFIG"
    by (simp add: fresh_host_def getConfig_fresh)
  have "SPELL_SLOT_TABLE (snd (applyExpandedSpellSlots fresh_host))
          = Some (patch_table DEFAULT_CONFIG example_table)"
    using applyExpandedSpellSlots_table(2)[OF s 5] by (simp add: c)
  then show ?thesis
    using default_scenario[OF 1 2 3 4 5] by (simp add: patch_default_table)
qed

section \<open>Properties of the settings form and of the coercions it shares with the patch\<close>

lemma set_digits: "set (digits n) \<subseteq> set ''0123456789''"
proof (induction n rule: digits.induct)
  case (1 n)
  have m: "''0123456789'' ! (n mod 10) \<in> set ''0123456789''"
    by (rule nth_mem) simp
  show ?case
  proof (cases "n < 10")
    case True
    then have "''0123456789'' ! n \<in> set ''0123456789''"
      by (intro nth_mem) simp
    then show ?thesis using True by (subst digits.simps) simp
  next
    case False
    then show ?thesis using 1 m by (subst digits.simps) simp
  qed
qed

lemma decimal_char:
  assumes "c \<in> set ''0123456789''"
  shows "is_digit 10 c" "\<not> is_space c" "c \<noteq> CHR ''-''" "c \<noteq> CHR ''+''"
    "c \<noteq> CHR ''x''" "c \<noteq> CHR ''X''"
  using assms by (auto simp: is_digit_def digit_val_def is_space_def)

lemma parse_magnitude_digits: "parse_magnitude (digits n) = Some n"
proof -
  have all: "\<forall>c \<in> set (digits n). is_digit 10 c"
    using set_digits decimal_char(1) by blast
  have "CHR ''x'' \<notin> set (digits n)" "CHR ''X'' \<notin> set (digits n)"
    using set_digits decimal_char(5,6) by blast+
  then have "CHR ''x'' \<notin> set (take 2 (digits n))" "CHR ''X'' \<notin> set (take 2 (digits n))"
    by (meson in_set_takeD)+
  then have p: "take 2 (digits n) \<noteq> ''0x''" "take 2 (digits n) \<noteq> ''0X''"
    by auto
  have tw: "takeWhile (is_digit 10) (digits n) = digits n"
    using all by (simp add: takeWhile_eq_all_conv)
  show ?thesis
    using p hd_digits[of n] by (simp add: parse_magnitude_def Let_def tw digits_value_digits)
qed

lemma parse_string_digits: "parse_string (digits n) = Some (int n)"
proof -
  obtain c cs where d: "digits n = c # cs"
    using hd_digits[of n] by (cases "digits n") auto
  then have "c \<in> set ''0123456789''"
    using set_digits[of n] by auto
  note c = decimal_char[OF this]
  show ?thesis
    using parse_magnitude_digits[of n] c(2,3,4)
    by (simp add: parse_string_def d)
qed

lemma parseInt_js_String: "parseInt (JStr (js_String n)) = Some n"
proof (cases "n < 0")
  case True
  have "\<not> is_space CHR ''-''" by (simp add: is_space_def)
  then show ?thesis
    using True by (simp add: js_String_def parse_string_def parse_magnitude_digits)
next
  case False
  then show ?thesis by (simp add: js_String_def parse_string_digits)
qed

lemma length_getData_levels:
  "length (getData_levels cfg) = nat (max (maxSpellLevel cfg) 10 - 9)"
  by (simp add: getData_levels_def)

lemma getData_levels_nth:
  assumes "10 \<le> level" and "level \<le> max (maxSpellLevel cfg) 10"
  shows "getData_levels cfg ! nat (level - 10) =
           (let levelConfig =
                  (case levels cfg level of
                     Some r \<Rightarrow> r
                   | None \<Rightarrow> \<lparr>enabled = JBool False, characterLevel = JNum 20, slots = JNum 1\<rparr>)
            in \<lparr>d_level = level,
                d_label = level_label level,
                d_enabled = (enabled levelConfig = JBool True \<or> enabled levelConfig = JStr ''true''),
                d_characterLevel = or_default (parseInt (characterLevel levelConfig)) 20,
                d_slots = or_default (parseInt (slots levelConfig)) 1\<rparr>)"
proof -
  have k: "nat (level - 10) < length [10..max (maxSpellLevel cfg) 10]"
    using assms by simp
  have "[10..max (maxSpellLevel cfg) 10] ! nat (level - 10) = 10 + int (nat (level - 10))"
    using assms by (intro nth_upto) simp
  then have n: "[10..max (maxSpellLevel cfg) 10] ! nat (level - 10) = level"
    using assms by simp
  show ?thesis
    unfolding getData_levels_def by (simp only: nth_map[OF k] n)
qed

lemma dom_fold_upd:
  "dom (fold (\<lambda>level ls. ls(level \<mapsto> f level)) xs m) = dom m \<union> set xs"
  by (induction xs arbitrary: m) auto

text \<open>
  C4. \<open>removeLevel\<close> (\<^verbatim>\<open>_removeLevel\<close>) returns early, writing nothing, for every tier of 10
  or less, whatever the configuration. For a tier above 10 it hands on a configuration
  without a rule for that tier, with every other rule as it was and under its old
  number, and with \<open>maxSpellLevel\<close> one less exactly when the tier was \<open>maxSpellLevel\<close>.
\<close>

theorem removeLevel_contract:
  "(tier \<le> 10 \<longrightarrow> removeLevel tier cfg = None) \<and>
   (10 < tier \<longrightarrow>
      (\<exists>cfg'. removeLevel tier cfg = Some cfg' \<and>
         levels cfg' tier = None \<and>
         (\<forall>t. t \<noteq> tier \<longrightarrow> levels cfg' t = levels cfg t) \<and>
         maxSpellLevel cfg' =
           (if tier = maxSpellLevel cfg then maxSpellLevel cfg - 1 else maxSpellLevel cfg)))"
  by (simp add: removeLevel_def Let_def)

theorem removeLevel_contract_witness:
  "removeLevel 10 DEFAULT_CONFIG = None \<and>
   (\<exists>cfg'. removeLevel 12 DEFAULT_CONFIG = Some cfg' \<and> levels cfg' 12 = None \<and>
      levels cfg' 11 = levels DEFAULT_CONFIG 11 \<and> maxSpellLevel cfg' = 11) \<and>
   (\<exists>cfg'. removeLevel 11 DEFAULT_CONFIG = Some cfg' \<and> levels cfg' 11 = None \<and>
      levels cfg' 12 = levels DEFAULT_CONFIG 12 \<and> maxSpellLevel cfg' = 12)"
  using removeLevel_contract[of 10 DEFAULT_CONFIG] removeLevel_contract[of 12 DEFAULT_CONFIG]
    removeLevel_contract[of 11 DEFAULT_CONFIG]
  by (auto simp: DEFAULT_CONFIG_def)

text \<open>
  C5 (as stated). A slot count of \<open>0\<close> parses as the integer \<open>0\<close>, and yet the count the
  patch uses for it is \<open>1\<close>: \<^verbatim>\<open>parseInt(levelConfig.slots) || 1\<close> replaces every falsy
  value, \<open>0\<close> among them.
\<close>

theorem zero_slots_become_one:
  "parseInt (JNum 0) = Some 0 \<and> parseInt (JStr ''0'') = Some 0 \<and>
   slotsToGrant \<lparr>enabled = JBool True, characterLevel = JNum 20, slots = JNum 0\<rparr> = 1 \<and>
   slotsToGrant \<lparr>enabled = JBool True, characterLevel = JNum 20, slots = JStr ''0''\<rparr> = 1"
proof -
  have "parseInt (JStr ''0'') = Some 0"
    using parseInt_js_String[of 0] by (simp add: js_String_def digits.simps)
  then show ?thesis
    by (simp add: slotsToGrant_def or_default_def)
qed

text \<open>
  C5 (amended). In the patch, in the rows of the form and in a submitted form alike, the
  slot count is the value of the field whenever that value parses as an integer other
  than \<open>0\<close>, a negative one included; it is \<open>1\<close> when the value does not parse (a missing
  field among the cases) and also when it parses as \<open>0\<close>. A number and the decimal
  string of a number parse as that number.
\<close>

theorem slot_count_default:
  "parseInt (JNum n) = Some n \<and> parseInt (JStr (js_String n)) = Some n \<and>
   parseInt JUndefined = None \<and>
   (parseInt v = Some n \<and> n \<noteq> 0 \<longrightarrow>
      slotsToGrant (r\<lparr>slots := v\<rparr>) = n \<and>
      (formData (form_key level ''slots'') = v \<longrightarrow> slots (form_rule formData level) = JNum n) \<and>
      (10 \<le> level \<and> level \<le> max (maxSpellLevel cfg) 10 \<and>
       levels cfg level = Some (r\<lparr>slots := v\<rparr>) \<longrightarrow>
         d_slots (getData_levels cfg ! nat (level - 10)) = n)) \<and>
   (parseInt v = None \<or> parseInt v = Some 0 \<longrightarrow>
      slotsToGrant (r\<lparr>slots := v\<rparr>) = 1 \<and>
      (formData (form_key level ''slots'') = v \<longrightarrow> slots (form_rule formData level) = JNum 1) \<and>
      (10 \<le> level \<and> level \<le> max (maxSpellLevel cfg) 10 \<and>
       levels cfg level = Some (r\<lparr>slots := v\<rparr>) \<longrightarrow>
         d_slots (getData_levels cfg ! nat (level - 10)) = 1))"
proof -
  have g: "10 \<le> level \<and> level \<le> max (maxSpellLevel cfg) 10 \<and>
           levels cfg level = Some (r\<lparr>slots := v\<rparr>) \<longrightarrow>
           d_slots (getData_levels cfg ! nat (level - 10)) = or_default (parseInt v) 1"
    by (auto simp: getData_levels_nth)
  have f: "formData (form_key level ''slots'') = v \<longrightarrow>
           slots (form_rule formData level) = JNum (or_default (parseInt v) 1)"
    by (simp add: form_rule_def)
  have s: "slotsToGrant (r\<lparr>slots := v\<rparr>) = or_default (parseInt v) 1"
    by (simp add: slotsToGrant_def)
  have a: "parseInt v = Some n \<and> n \<noteq> 0 \<longrightarrow> or_default (parseInt v) 1 = n"
    and b: "parseInt v = None \<or> parseInt v = Some 0 \<longrightarrow> or_default (parseInt v) 1 = 1"
    by (auto simp: or_default_def)
  show ?thesis
    using g f s a b parseInt_js_String[of n] by auto
qed

theorem slot_count_default_witness:
  "slotsToGrant \<lparr>enabled = JBool True, characterLevel = JNum 20, slots = JStr (js_String (- 3))\<rparr> = - 3 \<and>
   slotsToGrant \<lparr>enabled = JBool True, characterLevel = JNum 20, slots = JNum 2\<rparr> = 2 \<and>
   slotsToGrant \<lparr>enabled = JBool True, characterLevel = JNum 20, slots = JUndefined\<rparr> = 1 \<and>
   slotsToGrant \<lparr>enabled = JBool True, characterLevel = JNum 20, slots = JNum 0\<rparr> = 1"
  using
    slot_count_default[of "- 3" "JStr (js_String (- 3))"
      "\<lparr>enabled = JBool True, characterLevel = JNum 20, slots = JNull\<rparr>"]
    slot_count_default[of 2 "JNum 2"
      "\<lparr>enabled = JBool True, characterLevel = JNum 20, slots = JNull\<rparr>"]
    slot_count_default[of 0 "JUndefined"
      "\<lparr>enabled = JBool True, characterLevel = JNum 20, slots = JNull\<rparr>"]
    slot_count_default[of 0 "JNum 0"
      "\<lparr>enabled = JBool True, characterLevel = JNum 20, slots = JNull\<rparr>"]
  by simp

text \<open>
  C6 (as stated). The string \<open>''on''\<close> counts as enabled in a submitted form, but the
  patch reads a rule whose flag is \<open>''on''\<close> as disabled.
\<close>

theorem on_is_not_enabled_in_patch:
  "form_enabled (JStr ''on'') \<and>
   \<not> isEnabled (Some \<lparr>enabled = JStr ''on'', characterLevel = JNum 20, slots = JNum 1\<rparr>)"
  by (simp add: form_enabled_def isEnabled_def)

text \<open>
  C6 (amended). The patch and the rows of the form read a rule as enabled exactly when
  its flag is the boolean \<open>true\<close> or the string \<open>''true''\<close>; a missing rule is disabled. A
  submitted form reads a field as enabled exactly when it is the boolean \<open>true\<close>, the
  string \<open>''on''\<close> or the string \<open>''true''\<close>, and stores the result as a boolean, which the
  patch then reads as it was stored.
\<close>

theorem enabled_normalisation:
  "isEnabled (Some r) = (enabled r = JBool True \<or> enabled r = JStr ''true'') \<and>
   isEnabled None = False \<and>
   (10 \<le> level \<and> level \<le> max (maxSpellLevel cfg) 10 \<longrightarrow>
      d_enabled (getData_levels cfg ! nat (level - 10)) =
        (case levels cfg level of
           None \<Rightarrow> False
         | Some r \<Rightarrow> enabled r = JBool True \<or> enabled r = JStr ''true'')) \<and>
   enabled (form_rule formData level) =
     JBool (formData (form_key level ''enabled'') = JBool True \<or>
            formData (form_key level ''enabled'') = JStr ''on'' \<or>
            formData (form_key level ''enabled'') = JStr ''true'') \<and>
   isEnabled (Some (form_rule formData level)) =
     (formData (form_key level ''enabled'') = JBool True \<or>
      formData (form_key level ''enabled'') = JStr ''on'' \<or>
      formData (form_key level ''enabled'') = JStr ''true'')"
  by (auto simp: isEnabled_def form_rule_def form_enabled_def getData_levels_nth
      split: option.splits)

theorem enabled_normalisation_witness:
  "d_enabled (getData_levels DEFAULT_CONFIG ! 2) \<and>
   isEnabled (Some (form_rule (\<lambda>k. JStr ''on'') 12)) \<and>
   isEnabled (Some \<lparr>enabled = JStr ''true'', characterLevel = JNum 20, slots = JNum 1\<rparr>)"
  using enabled_normalisation[of
      "\<lparr>enabled = JStr ''true'', characterLevel = JNum 20, slots = JNum 1\<rparr>"
      12 DEFAULT_CONFIG "\<lambda>k. JStr ''on''"]
  by (simp add: DEFAULT_CONFIG_def)

section \<open>A missing table, a missing handle\<close>

text \<open>
  C7 (as stated). With no slot table and no snapshot the call does not skip a step: it
  throws a \<^verbatim>\<open>TypeError\<close> at \<^verbatim>\<open>CONFIG.DND5E.SPELL_SLOT_TABLE.map\<close>, leaving the host as
  it was.
\<close>

theorem missing_table_throws:
  "SPELL_SLOT_TABLE no_table_host = None \<and>
   applyExpandedSpellSlots no_table_host = (Throw TypeError, no_table_host)"
proof -
  have "originalSpellSlotTable no_table_host = None" "SPELL_SLOT_TABLE no_table_host = None"
    by (simp_all add: no_table_host_def fresh_host_def)
  then show ?thesis by (simp add: applyExpandedSpellSlots_no_table)
qed

text \<open>
  C7 (amended). When the label table exists and there is a slot table or an earlier
  snapshot, the call completes without throwing; a missing \<^verbatim>\<open>updateSource\<close> handle is
  skipped, the cached copy staying absent, and a missing live table is rebuilt from the
  snapshot.
\<close>

theorem missing_handle_is_skipped:
  assumes "spellLevels h = Some ls"
      and "(case originalSpellSlotTable h of Some original \<Rightarrow> Some original
            | None \<Rightarrow> SPELL_SLOT_TABLE h) = Some original"
  shows "fst (applyExpandedSpellSlots h) = Normal \<and>
         (spell_table h = None \<longrightarrow> spell_table (snd (applyExpandedSpellSlots h)) = None) \<and>
         SPELL_SLOT_TABLE (snd (applyExpandedSpellSlots h))
           = Some (patch_table (getConfig (setting h)) original)"
  using applyExpandedSpellSlots_table[OF assms(2,1)] by simp

theorem missing_handle_is_skipped_witness:
  "SPELL_SLOT_TABLE reset_host = None \<and> spell_table reset_host = None \<and>
   fst (applyExpandedSpellSlots reset_host) = Normal \<and>
   spell_table (snd (applyExpandedSpellSlots reset_host)) = None \<and>
   SPELL_SLOT_TABLE (snd (applyExpandedSpellSlots reset_host))
     = Some (patch_table DEFAULT_CONFIG example_table)"
proof -
  have l: "spellLevels reset_host = Some example_spellLevels"
    and s: "(case originalSpellSlotTable reset_host of Some original \<Rightarrow> Some original
             | None \<Rightarrow> SPELL_SLOT_TABLE reset_host) = Some example_table"
    and c: "getConfig (setting reset_host) = DEFAULT_CONFIG"
    and n: "SPELL_SLOT_TABLE reset_host = None" "spell_table reset_host = None"
    by (simp_all add: reset_host_def fresh_host_def getConfig_fresh)
  show ?thesis
    using missing_handle_is_skipped[OF l s] n by (simp add: c)
qed

section \<open>The shape of \<open>levels\<close>\<close>

text \<open>
  C8 (as stated). \<open>getConfig\<close> merges shallowly and fills nothing in: a stored
  \<open>maxSpellLevel\<close> of 15 with no stored \<open>levels\<close> gives a configuration without a rule for
  tier 13, and a stored \<open>maxSpellLevel\<close> of 10 leaves the default rule of tier 12 in
  place. Removing tier 11 under \<open>maxSpellLevel = 12\<close> leaves tier 11 without a rule.
\<close>

theorem levels_not_normalised:
  "maxSpellLevel (getConfig (ReadValue \<lparr>stored_maxSpellLevel = Some 15, stored_levels = None\<rparr>)) = 15 \<and>
   levels (getConfig (ReadValue \<lparr>stored_maxSpellLevel = Some 15, stored_levels = None\<rparr>)) 13 = None \<and>
   maxSpellLevel (getConfig (ReadValue \<lparr>stored_maxSpellLevel = Some 10, stored_levels = None\<rparr>)) = 10 \<and>
   levels (getConfig (ReadValue \<lparr>stored_maxSpellLevel = Some 10, stored_levels = None\<rparr>)) 12
     = Some \<lparr>enabled = JBool True, characterLevel = JNum 20, slots = JNum 1\<rparr> \<and>
   (\<exists>cfg'. removeLevel 11 DEFAULT_CONFIG = Some cfg' \<and> maxSpellLevel cfg' = 12 \<and>
           levels cfg' 11 = None)"
  by (simp add: getConfig_def DEFAULT_CONFIG_def removeLevel_def Let_def)

text \<open>
  C8 (amended). A form submission builds a configuration whose \<open>levels\<close> has a rule for
  exactly the tiers from 10 to \<open>maxSpellLevel\<close>, with \<open>maxSpellLevel\<close> as it was. Adding a
  tier, and removing the highest tier, keep that property where it held before.
\<close>

theorem submitted_levels_exact:
  "dom (levels (updateObject formData cfg)) = {10..maxSpellLevel cfg} \<and>
   maxSpellLevel (updateObject formData cfg) = maxSpellLevel cfg \<and>
   (9 \<le> maxSpellLevel cfg \<and> dom (levels cfg) = {10..maxSpellLevel cfg} \<longrightarrow>
      dom (levels (addLevel cfg)) = {10..maxSpellLevel (addLevel cfg)}) \<and>
   (10 < maxSpellLevel cfg \<and> dom (levels cfg) = {10..maxSpellLevel cfg} \<longrightarrow>
      (\<exists>cfg'. removeLevel (maxSpellLevel cfg) cfg = Some cfg' \<and>
         dom (levels cfg') = {10..maxSpellLevel cfg'}))"
proof -
  have a: "dom (levels (updateObject formData cfg)) = {10..maxSpellLevel cfg}"
    by (simp add: updateObject_def dom_fold_upd)
  have b: "9 \<le> maxSpellLevel cfg \<and> dom (levels cfg) = {10..maxSpellLevel cfg} \<longrightarrow>
      dom (levels (addLevel cfg)) = {10..maxSpellLevel (addLevel cfg)}"
    by (auto simp: addLevel_def Let_def)
  have c: "10 < maxSpellLevel cfg \<and> dom (levels cfg) = {10..maxSpellLevel cfg} \<longrightarrow>
      (\<exists>cfg'. removeLevel (maxSpellLevel cfg) cfg = Some cfg' \<and>
         dom (levels cfg') = {10..maxSpellLevel cfg'})"
    by (auto simp: removeLevel_def Let_def)
  show ?thesis
    using a b c by (simp add: updateObject_def)
qed

lemma dom_default_levels: "dom (levels DEFAULT_CONFIG) = {10..maxSpellLevel DEFAULT_CONFIG}"
proof -
  have "{10..12::int} = set [10..12]" by simp
  also have "\<dots> = {10, 11, 12}" by (simp add: upto_rec_numeral)
  finally show ?thesis by (auto simp: DEFAULT_CONFIG_def)
qed

theorem submitted_levels_exact_witness:
  "dom (levels (updateObject (\<lambda>k. JUndefined) DEFAULT_CONFIG)) = {10..12} \<and>
   dom (levels (addLevel DEFAULT_CONFIG)) = {10..13} \<and>
   (\<exists>cfg'. removeLevel 12 DEFAULT_CONFIG = Some cfg' \<and> dom (levels cfg') = {10..maxSpellLevel cfg'})"
proof -
  have m: "maxSpellLevel DEFAULT_CONFIG = 12" "maxSpellLevel (addLevel DEFAULT_CONFIG) = 13"
    by (simp_all add: DEFAULT_CONFIG_def addLevel_def)
  show ?thesis
    using submitted_levels_exact[of "\<lambda>k. JUndefined" DEFAULT_CONFIG] dom_default_levels
    by (simp add: m)
qed

end
